(* ===== verification/Prelude.thy ===== *)
theory Prelude
  imports Complex_Main
begin

text \<open>
  Shared vocabulary of the development. JavaScript numbers are modelled as exact
  rationals (\<open>jsnum\<close>); the three-component vectors of three.js
  (\<open>Vector3\<close>, \<open>Euler\<close>) as the record \<open>vec3\<close>; object references as
  \<open>oid\<close>, addresses into an explicit store. The lemmas here are the generic facts
  on vectors and lists that the component theories share.
\<close>

type_synonym jsnum = rat
type_synonym oid = nat

named_theorems wf_intros "rules establishing well-formedness of the model's states"

record vec3 =
  vx :: jsnum
  vy :: jsnum
  vz :: jsnum

definition vec3_zero :: vec3 where
  "vec3_zero = \<lparr>vx = 0, vy = 0, vz = 0\<rparr>"

definition vec3_add :: "vec3 \<Rightarrow> vec3 \<Rightarrow> vec3" where
  "vec3_add a b = \<lparr>vx = vx a + vx b, vy = vy a + vy b, vz = vz a + vz b\<rparr>"

definition vec3_scale :: "nat \<Rightarrow> vec3 \<Rightarrow> vec3" where
  "vec3_scale n d = \<lparr>vx = of_nat n * vx d, vy = of_nat n * vy d, vz = of_nat n * vz d\<rparr>"

lemma vec3_zero_sel [simp]:
  "vx vec3_zero = 0" "vy vec3_zero = 0" "vz vec3_zero = 0"
  by (simp_all add: vec3_zero_def)

lemma vec3_add_sel [simp]:
  "vx (vec3_add a b) = vx a + vx b"
  "vy (vec3_add a b) = vy a + vy b"
  "vz (vec3_add a b) = vz a + vz b"
  by (simp_all add: vec3_add_def)

lemma vec3_scale_sel [simp]:
  "vx (vec3_scale n d) = of_nat n * vx d"
  "vy (vec3_scale n d) = of_nat n * vy d"
  "vz (vec3_scale n d) = of_nat n * vz d"
  by (simp_all add: vec3_scale_def)

lemma vec3_eqI:
  "vx a = vx b \<Longrightarrow> vy a = vy b \<Longrightarrow> vz a = vz b \<Longrightarrow> a = (b :: vec3)"
  by (cases a, cases b) simp

lemma vec3_add_zero [simp]: "vec3_add a vec3_zero = a"
  by (rule vec3_eqI) simp_all

lemma vec3_add_assoc: "vec3_add (vec3_add a b) c = vec3_add a (vec3_add b c)"
  by (rule vec3_eqI) (simp_all add: add.assoc)

lemma vec3_add_comm: "vec3_add a b = vec3_add b a"
  by (rule vec3_eqI) (simp_all add: add.commute)

lemma vec3_scale_0 [simp]: "vec3_scale 0 d = vec3_zero"
  by (rule vec3_eqI) simp_all

lemma vec3_scale_Suc: "vec3_scale (Suc n) d = vec3_add (vec3_scale n d) d"
  by (rule vec3_eqI) (simp_all add: algebra_simps)

lemma vec3_scale_Suc_left: "vec3_scale (Suc n) d = vec3_add d (vec3_scale n d)"
  by (rule vec3_eqI) (simp_all add: algebra_simps)

text \<open>Adding a fixed delta \<open>n\<close> times is adding \<open>n\<close> times the delta once.\<close>

lemma vec3_add_iterate:
  "((\<lambda>v. vec3_add v d) ^^ n) v = vec3_add v (vec3_scale n d)"
  by (induction n) (simp_all add: vec3_scale_Suc vec3_add_assoc)

subsection \<open>Lists used as ordered collections\<close>

text \<open>
  \<open>Array.prototype.push\<close> after removing an element (three.js re-parenting) and
  \<open>splice\<close> at \<open>indexOf\<close> are \<open>remove1 x xs @ [x]\<close> and \<open>remove1 x xs\<close>.
\<close>

lemma distinct_remove1_snoc [simp]:
  "distinct xs \<Longrightarrow> distinct (remove1 x xs @ [x])"
  by (simp add: distinct_remove1)

lemma set_remove1_snoc [simp]: "set (remove1 x xs @ [x]) = insert x (set xs)"
  by (induction xs) auto

lemma remove1_snoc_notin [simp]: "x \<notin> set xs \<Longrightarrow> remove1 x xs @ [x] = xs @ [x]"
  by (simp add: remove1_idem)

lemma map_filter_cong:
  "(\<And>x. x \<in> set xs \<Longrightarrow> f x = g x) \<Longrightarrow> List.map_filter f xs = List.map_filter g xs"
  by (induction xs) (simp_all add: List.map_filter_simps split: option.split)

lemma length_remove1_snoc:
  "length (remove1 x xs @ [x]) = (if x \<in> set xs then length xs else Suc (length xs))"
  by (auto simp: length_remove1 dest: length_pos_if_in_set)

end
