(* ===== verification/Scene.thy ===== *)
theory Scene
  imports Prelude
begin

text \<open>
  The Scene Graph Store. The objects App.jsx creates (meshes with their geometry
  and material, the two lights) live in an explicit store from object references to
  objects, because the scroll handler and the animation loop mutate the same objects
  that the scene holds by reference. A three.js \<open>Scene\<close> is the ordered list of its
  children's references and its background. \<open>scene_add\<close> follows three.js
  \<open>Object3D.add\<close> (detach from the current parent, then push); the program never
  removes an object, so \<open>Object3D.remove\<close> has no counterpart here.
\<close>

datatype geometry =
    TorusGeometry jsnum jsnum nat nat
  | SphereGeometry jsnum nat nat
  | BoxGeometry jsnum jsnum jsnum

datatype texture = Texture string

record material =
  color :: nat
  roughness :: jsnum
  metalness :: jsnum
  tex_map :: "texture option"
  normal_map :: "texture option"

text \<open>\<open>new MeshStandardMaterial({})\<close>: three.js defaults, white, fully rough, not metallic.\<close>

definition mesh_standard_material :: material where
  "mesh_standard_material =
     \<lparr>color = 0xffffff, roughness = 1, metalness = 0, tex_map = None, normal_map = None\<rparr>"

datatype obj_kind =
    Mesh geometry material
  | PointLight nat jsnum
  | AmbientLight nat jsnum

record obj3d =
  kind :: obj_kind
  position :: vec3
  rotation :: vec3

type_synonym store = "oid \<Rightarrow> obj3d option"

text \<open>A freshly constructed \<open>Object3D\<close> sits at the origin with zero rotation.\<close>

definition new_object :: "obj_kind \<Rightarrow> obj3d" where
  "new_object k = \<lparr>kind = k, position = vec3_zero, rotation = vec3_zero\<rparr>"

record scene =
  children :: "oid list"
  background :: "texture option"

definition empty_scene :: scene where
  "empty_scene = \<lparr>children = [], background = None\<rparr>"

text \<open>
  \<open>scene.add(o)\<close>: \<open>o.removeFromParent()\<close> then \<open>children.push(o)\<close>; with the
  scene as the only parent in this program, the parent is the scene exactly when the
  reference is among its children.
\<close>

definition scene_add :: "oid \<Rightarrow> scene \<Rightarrow> scene" where
  "scene_add i s = s\<lparr>children := remove1 i (children s) @ [i]\<rparr>"

text \<open>The scene invariant: no child twice, and no child that is not an object of the store.\<close>

definition scene_wf :: "store \<Rightarrow> scene \<Rightarrow> bool" where
  "scene_wf objs s \<longleftrightarrow> distinct (children s) \<and> list_all (\<lambda>i. objs i \<noteq> None) (children s)"

text \<open>What \<open>renderer.render(scene, camera)\<close> draws: the scene's children, in order.\<close>

definition visible :: "store \<Rightarrow> scene \<Rightarrow> obj3d list" where
  "visible objs s = List.map_filter objs (children s)"

text \<open>Object mutation through a reference: \<open>o.rotation.x += d\<close> and the like.\<close>

definition update_obj :: "(obj3d \<Rightarrow> obj3d) \<Rightarrow> oid \<Rightarrow> store \<Rightarrow> store" where
  "update_obj f i objs = objs(i := map_option f (objs i))"

definition rotate_obj :: "vec3 \<Rightarrow> oid \<Rightarrow> store \<Rightarrow> store" where
  "rotate_obj d = update_obj (\<lambda>ob. ob\<lparr>rotation := vec3_add (rotation ob) d\<rparr>)"

text \<open>The store with every rotation reset: what a handler that only rotates leaves alone.\<close>

definition unrotated :: "store \<Rightarrow> oid \<Rightarrow> obj3d option" where
  "unrotated m j = map_option (\<lambda>ob. ob\<lparr>rotation := vec3_zero\<rparr>) (m j)"

lemma update_obj_same [simp]:
  "update_obj f i objs i = map_option f (objs i)"
  by (simp add: update_obj_def)

lemma update_obj_other [simp]:
  "j \<noteq> i \<Longrightarrow> update_obj f i objs j = objs j"
  by (simp add: update_obj_def)

lemma update_obj_defined [simp]:
  "(update_obj f i objs j = None) = (objs j = None)"
  by (cases "j = i") simp_all

text \<open>Mutating an object never changes which references are defined.\<close>

lemma scene_wf_update_obj [simp]:
  "scene_wf (update_obj f i objs) s = scene_wf objs s"
  by (simp add: scene_wf_def)

lemma scene_wf_alloc [wf_intros]:
  "scene_wf objs s \<Longrightarrow> objs i = None \<Longrightarrow> scene_wf (objs(i \<mapsto> ob)) s"
  by (auto simp: scene_wf_def list_all_iff)

lemma unrotated_rotate [simp]: "unrotated (rotate_obj d i m) = unrotated m"
  by (rule ext) (simp add: unrotated_def rotate_obj_def update_obj_def option.map_comp comp_def)

lemma visible_update_obj:
  "i \<notin> set (children s) \<Longrightarrow> visible (update_obj f i objs) s = visible objs s"
  unfolding visible_def by (rule map_filter_cong) (metis update_obj_other)

lemma children_scene_add [simp]: "children (scene_add i s) = remove1 i (children s) @ [i]"
  by (simp add: scene_add_def)

lemma background_scene_add [simp]: "background (scene_add i s) = background s"
  by (simp add: scene_add_def)

lemma map_filter_all_Some:
  "list_all (\<lambda>i. f i \<noteq> None) xs \<Longrightarrow> map Some (List.map_filter f xs) = map f xs"
  by (induction xs) (auto simp: List.map_filter_simps)

lemma length_visible [simp]:
  "scene_wf objs s \<Longrightarrow> length (visible objs s) = length (children s)"
  using map_filter_all_Some [of objs "children s"]
  by (simp add: scene_wf_def visible_def) (metis length_map)

lemma visible_nth:
  "scene_wf m s \<Longrightarrow> k < length (children s) \<Longrightarrow> Some (visible m s ! k) = m (children s ! k)"
  using map_filter_all_Some [of m "children s"] length_visible [of m s]
  by (simp add: scene_wf_def visible_def) (metis nth_map)

end
