(* ===== verification/StarField.thy ===== *)
theory StarField
  imports Scene
begin

text \<open>
  The construction stage of the scene and the Star-Field Generator (App.jsx lines
  50--60). The record \<open>stage\<close> is the part of the program state that construction
  mutates: the object store with its next free reference, the scene, and the number
  of values \<open>Math.random\<close> has returned so far. \<open>Math.random\<close> itself is a
  parameter \<open>rnd :: nat \<Rightarrow> jsnum\<close>, the sequence of its results, so that the
  generator is a pure function of its random source. \<open>rand_float_spread\<close> is
  three.js \<open>MathUtils.randFloatSpread\<close>, \<open>range * (0.5 - Math.random())\<close>.
\<close>

record stage =
  objs :: store
  next_oid :: oid
  scene :: scene
  draws :: nat

definition stage_wf :: "'a stage_scheme \<Rightarrow> bool" where
  "stage_wf st \<longleftrightarrow>
     scene_wf (objs st) (scene st) \<and> (\<forall>i. next_oid st \<le> i \<longrightarrow> objs st i = None)"

definition rand_float_spread :: "jsnum \<Rightarrow> jsnum \<Rightarrow> jsnum" where
  "rand_float_spread spread r = spread * (0.5 - r)"

text \<open>\<open>new Mesh(...)\<close>: a fresh object in the store.\<close>

definition alloc :: "obj3d \<Rightarrow> 'a stage_scheme \<Rightarrow> oid \<times> 'a stage_scheme" where
  "alloc ob st =
     (next_oid st, st\<lparr>objs := (objs st)(next_oid st \<mapsto> ob), next_oid := Suc (next_oid st)\<rparr>)"

definition add_to_scene :: "oid \<Rightarrow> 'a stage_scheme \<Rightarrow> 'a stage_scheme" where
  "add_to_scene i st = st\<lparr>scene := scene_add i (scene st)\<rparr>"

definition star_kind :: obj_kind where
  "star_kind = Mesh (SphereGeometry 0.25 24 24) (mesh_standard_material\<lparr>color := 0xffffff\<rparr>)"

text \<open>
  \<open>Array(3).fill().map(() => randFloatSpread(100))\<close>: three draws, taken in the
  order x, y, z, from draw number \<open>k\<close> on.
\<close>

definition star_position :: "(nat \<Rightarrow> jsnum) \<Rightarrow> nat \<Rightarrow> vec3" where
  "star_position rnd k =
     \<lparr>vx = rand_float_spread 100 (rnd k), vy = rand_float_spread 100 (rnd (k + 1)),
      vz = rand_float_spread 100 (rnd (k + 2))\<rparr>"

definition add_star :: "(nat \<Rightarrow> jsnum) \<Rightarrow> 'a stage_scheme \<Rightarrow> 'a stage_scheme" where
  "add_star rnd st =
     (let (i, st1) = alloc (new_object star_kind) st;
          p = star_position rnd (draws st1);
          st2 = st1\<lparr>draws := draws st1 + 3,
                    objs := update_obj (\<lambda>ob. ob\<lparr>position := p\<rparr>) i (objs st1)\<rparr>
      in add_to_scene i st2)"

text \<open>\<open>Array.from({length: n}).forEach(addStar)\<close>: \<open>n\<close> stars, first to last.\<close>

primrec add_stars :: "nat \<Rightarrow> (nat \<Rightarrow> jsnum) \<Rightarrow> 'a stage_scheme \<Rightarrow> 'a stage_scheme" where
  "add_stars 0 rnd st = st"
| "add_stars (Suc n) rnd st = add_stars n rnd (add_star rnd st)"

definition star_at :: "(nat \<Rightarrow> jsnum) \<Rightarrow> nat \<Rightarrow> obj3d" where
  "star_at rnd k = (new_object star_kind)\<lparr>position := star_position rnd k\<rparr>"

lemma stage_wf_fresh: "stage_wf st \<Longrightarrow> next_oid st \<notin> set (children (scene st))"
  by (auto simp: stage_wf_def scene_wf_def list_all_iff)

lemma stage_wf_alloc_add [wf_intros]:
  assumes "stage_wf st"
  shows "stage_wf (add_to_scene (next_oid st) (snd (alloc ob st)))"
proof -
  have "scene_wf ((objs st)(next_oid st \<mapsto> ob)) (scene st)"
    using assms by (auto simp: stage_wf_def intro: scene_wf_alloc)
  then show ?thesis
    using assms by (auto simp: stage_wf_def add_to_scene_def alloc_def scene_wf_def list_all_iff)
qed

text \<open>Allocating and adding to the scene in a well-formed stage appends a fresh reference.\<close>

lemma add_to_scene_alloc_eq:
  assumes "stage_wf st"
  shows "add_to_scene (next_oid st) (snd (alloc ob st)) =
     st\<lparr>objs := (objs st)(next_oid st \<mapsto> ob), next_oid := Suc (next_oid st),
        scene := (scene st)\<lparr>children := children (scene st) @ [next_oid st]\<rparr>\<rparr>"
  using stage_wf_fresh [OF assms] by (simp add: alloc_def add_to_scene_def scene_add_def)

lemma stage_wf_append_fresh [simp]:
  assumes "stage_wf st"
  shows "stage_wf (st\<lparr>objs := (objs st)(next_oid st \<mapsto> ob), next_oid := Suc (next_oid st),
        scene := (scene st)\<lparr>children := children (scene st) @ [next_oid st]\<rparr>\<rparr>)"
  using stage_wf_alloc_add [OF assms, of ob] by (simp add: add_to_scene_alloc_eq [OF assms])

lemma stage_wf_background [simp]:
  "stage_wf (st\<lparr>scene := (scene st)\<lparr>background := b\<rparr>\<rparr>) = stage_wf st"
  by (simp add: stage_wf_def scene_wf_def)

text \<open>One star: a fresh reference, appended to the children, three draws consumed.\<close>

lemma add_star_eq:
  assumes "stage_wf st"
  shows "add_star rnd st =
     st\<lparr>objs := (objs st)(next_oid st \<mapsto> star_at rnd (draws st)),
        next_oid := Suc (next_oid st),
        scene := (scene st)\<lparr>children := children (scene st) @ [next_oid st]\<rparr>,
        draws := draws st + 3\<rparr>"
  using stage_wf_fresh [OF assms]
  by (simp add: add_star_def alloc_def add_to_scene_def update_obj_def scene_add_def
      star_at_def new_object_def)

lemma add_star_wf [wf_intros]: "stage_wf st \<Longrightarrow> stage_wf (add_star rnd st)"
  using stage_wf_fresh [of st]
  by (auto simp: add_star_eq stage_wf_def scene_wf_def list_all_iff)

lemma add_stars_wf [simp, wf_intros]: "stage_wf st \<Longrightarrow> stage_wf (add_stars n rnd st)"
  by (induction n arbitrary: st) (simp_all add: add_star_wf)

lemma add_stars_background [simp]:
  "background (scene (add_stars n rnd st)) = background (scene st)"
proof (induction n arbitrary: st)
  case (Suc n)
  have "background (scene (add_star rnd st)) = background (scene st)"
    by (simp add: add_star_def alloc_def add_to_scene_def split: prod.split)
  with Suc.IH show ?case by simp
qed simp

lemma add_star_counters [simp]:
  "next_oid (add_star rnd st) = Suc (next_oid st)"
  "draws (add_star rnd st) = draws st + 3"
  by (simp_all add: add_star_def alloc_def add_to_scene_def)

lemma add_stars_counters [simp]:
  "next_oid (add_stars n rnd st) = next_oid st + n"
  "draws (add_stars n rnd st) = draws st + 3 * n"
  by (induction n arbitrary: st) simp_all

lemma add_stars_children:
  "stage_wf st \<Longrightarrow>
   children (scene (add_stars n rnd st)) = children (scene st) @ [next_oid st..<next_oid st + n]"
proof (induction n arbitrary: st)
  case 0
  then show ?case by simp
next
  case (Suc n)
  have "stage_wf (add_star rnd st)" using Suc.prems by (rule add_star_wf)
  then show ?case
    using Suc.IH [of "add_star rnd st"] Suc.prems by (simp add: add_star_eq upt_rec)
qed

lemma add_stars_objs:
  "stage_wf st \<Longrightarrow>
   objs (add_stars n rnd st) j =
     (if next_oid st \<le> j \<and> j < next_oid st + n
      then Some (star_at rnd (draws st + 3 * (j - next_oid st))) else objs st j)"
proof (induction n arbitrary: st)
  case 0
  then show ?case by auto
next
  case (Suc n)
  have "stage_wf (add_star rnd st)" using Suc.prems by (rule add_star_wf)
  then have IH: "objs (add_stars n rnd (add_star rnd st)) j =
     (if Suc (next_oid st) \<le> j \<and> j < Suc (next_oid st) + n
      then Some (star_at rnd (draws st + 3 + 3 * (j - Suc (next_oid st))))
      else objs (add_star rnd st) j)"
    using Suc.IH [of "add_star rnd st"] by simp
  show ?case
  proof (cases "j = next_oid st")
    case True
    then show ?thesis using IH Suc.prems by (simp add: add_star_eq)
  next
    case False
    have "next_oid st < j \<Longrightarrow>
        draws st + 3 + 3 * (j - Suc (next_oid st)) = draws st + 3 * (j - next_oid st)"
      by arith
    with False show ?thesis using IH Suc.prems
      by (auto simp: add_star_eq le_eq_less_or_eq add.assoc)
  qed
qed

lemma rand_float_spread_100_bounds:
  "0 \<le> r \<Longrightarrow> r < 1 \<Longrightarrow> -50 < rand_float_spread 100 r \<and> rand_float_spread 100 r \<le> 50"
  by (simp add: rand_float_spread_def)

subsection \<open>Properties of the generator\<close>

text \<open>
  C16: \<open>n\<close> calls of \<open>addStar\<close> add exactly \<open>n\<close> new, distinct children, the
  references \<open>next_oid .. next_oid + n - 1\<close> in creation order, keep the stage
  well-formed and consume exactly \<open>3 n\<close> random draws.
\<close>

theorem add_stars_count:
  assumes "stage_wf st"
  shows "children (scene (add_stars n rnd st)) = children (scene st) @ [next_oid st..<next_oid st + n]
    \<and> length (children (scene (add_stars n rnd st))) = length (children (scene st)) + n
    \<and> stage_wf (add_stars n rnd st)
    \<and> draws (add_stars n rnd st) = draws st + 3 * n"
  using assms by (simp add: add_stars_children add_stars_wf)

theorem add_stars_count_witness:
  "length (children (scene (add_stars 200 (\<lambda>_. 0)
      \<lparr>objs = Map.empty, next_oid = 0, scene = empty_scene, draws = 0\<rparr>))) = 200"
proof -
  have "stage_wf \<lparr>objs = Map.empty, next_oid = 0, scene = empty_scene, draws = 0\<rparr>"
    by (simp add: stage_wf_def scene_wf_def empty_scene_def)
  from add_stars_count [OF this, of 200 "\<lambda>_. 0"] show ?thesis
    by (simp add: empty_scene_def)
qed

text \<open>
  C17: with \<open>Math.random\<close> in \<open>[0, 1)\<close>, every star the generator creates is a
  white sphere of radius 0.25 whose three coordinates lie in \<open>(-50, 50]\<close>, each
  the spread of its own draw, x first.
\<close>

theorem star_coordinates_bounded:
  assumes "stage_wf st" and "\<forall>k. 0 \<le> rnd k \<and> rnd k < 1"
    and "j \<in> set (children (scene (add_stars n rnd st)))" and "j \<notin> set (children (scene st))"
  shows "\<exists>ob. objs (add_stars n rnd st) j = Some ob \<and> kind ob = star_kind
    \<and> position ob = star_position rnd (draws st + 3 * (j - next_oid st))
    \<and> -50 < vx (position ob) \<and> vx (position ob) \<le> 50
    \<and> -50 < vy (position ob) \<and> vy (position ob) \<le> 50
    \<and> -50 < vz (position ob) \<and> vz (position ob) \<le> 50"
proof -
  from assms(1,3,4) have j: "next_oid st \<le> j \<and> j < next_oid st + n"
    by (simp add: add_stars_children)
  let ?k = "draws st + 3 * (j - next_oid st)"
  have "objs (add_stars n rnd st) j = Some (star_at rnd ?k)"
    using assms(1) j by (simp add: add_stars_objs)
  moreover have "-50 < rand_float_spread 100 (rnd m) \<and> rand_float_spread 100 (rnd m) \<le> 50" for m
    using assms(2) by (simp add: rand_float_spread_100_bounds)
  ultimately show ?thesis
    by (simp add: star_at_def new_object_def star_position_def)
qed

theorem star_coordinates_bounded_witness:
  "\<exists>ob. objs (add_stars 2 (\<lambda>k. 1 / 2) \<lparr>objs = Map.empty, next_oid = 0, scene = empty_scene, draws = 0\<rparr>) 1 = Some ob
    \<and> kind ob = star_kind
    \<and> position ob = star_position (\<lambda>k. 1 / 2) (0 + 3 * (1 - 0))
    \<and> -50 < vx (position ob) \<and> vx (position ob) \<le> 50
    \<and> -50 < vy (position ob) \<and> vy (position ob) \<le> 50
    \<and> -50 < vz (position ob) \<and> vz (position ob) \<le> 50"
proof -
  let ?st = "\<lparr>objs = Map.empty, next_oid = 0, scene = empty_scene, draws = 0\<rparr> :: stage"
  have wf: "stage_wf ?st" by (simp add: stage_wf_def scene_wf_def empty_scene_def)
  have r: "\<forall>k. 0 \<le> (\<lambda>k. 1 / 2 :: jsnum) k \<and> (\<lambda>k. 1 / 2 :: jsnum) k < 1" by simp
  have m1: "1 \<in> set (children (scene (add_stars 2 (\<lambda>k. 1 / 2) ?st)))"
    using wf by (simp add: add_stars_children empty_scene_def)
  have m2: "(1::oid) \<notin> set (children (scene ?st))" by (simp add: empty_scene_def)
  from star_coordinates_bounded [OF wf r m1 m2] show ?thesis by simp
qed

text \<open>
  The upper end of the interval is reached: a draw of 0 puts the first star at
  x coordinate 50, which the specification's interval \<open>[-50, 50)\<close> excludes.
\<close>

theorem star_field_reaches_50:
  "objs (add_stars 200 (\<lambda>_. 0) \<lparr>objs = Map.empty, next_oid = 0, scene = empty_scene, draws = 0\<rparr>) 0
   = Some (star_at (\<lambda>_. 0) 0)
   \<and> vx (position (star_at (\<lambda>_. 0) 0)) = 50"
proof -
  have "stage_wf \<lparr>objs = Map.empty, next_oid = 0, scene = empty_scene, draws = 0\<rparr>"
    by (simp add: stage_wf_def scene_wf_def empty_scene_def)
  then show ?thesis
    by (simp add: add_stars_objs star_at_def star_position_def rand_float_spread_def)
qed

end
