(* ===== verification/Camera.thy ===== *)
theory Camera
  imports Prelude
begin

text \<open>
  The Camera Rig: a three.js \<open>PerspectiveCamera\<close> (App.jsx lines 14--20) whose
  position is written by the scroll handler (\<open>camera.position.z = ...\<close>) and by
  the orbit controls' \<open>update()\<close>. The orbit controls are an external collaborator:
  the loop only calls their update hook, so they enter the model as a function on the
  camera (\<open>controls\<close>), with the contract the spec asks of them
  (\<open>controls_keep_depth\<close>: they never write \<open>position.z\<close>) and two instances:
  \<open>controls_idle\<close>, what \<open>OrbitControls.update()\<close> computes when no pointer input
  has arrived (the spherical round trip reproduces the position), and
  \<open>controls_rotate_left\<close>, its effect after a horizontal drag: a rotation of the
  position about the y axis through the default target at the origin, given by a
  cosine and sine pair.
\<close>

record camera =
  fov :: jsnum
  aspect :: jsnum
  near :: jsnum
  far :: jsnum
  cam_pos :: vec3

text \<open>\<open>new PerspectiveCamera(fov, aspect, near, far)\<close>: placed at the origin.\<close>

definition perspective_camera :: "jsnum \<Rightarrow> jsnum \<Rightarrow> jsnum \<Rightarrow> jsnum \<Rightarrow> camera" where
  "perspective_camera fv asp nr fr =
     \<lparr>fov = fv, aspect = asp, near = nr, far = fr, cam_pos = vec3_zero\<rparr>"

text \<open>\<open>camera.position.setZ(z)\<close> and \<open>camera.position.z = z\<close>.\<close>

definition set_z :: "jsnum \<Rightarrow> camera \<Rightarrow> camera" where
  "set_z z c = c\<lparr>cam_pos := (cam_pos c)\<lparr>vz := z\<rparr>\<rparr>"

type_synonym controls = "camera \<Rightarrow> camera"

definition controls_keep_depth :: "controls \<Rightarrow> bool" where
  "controls_keep_depth u \<longleftrightarrow> (\<forall>c. vz (cam_pos (u c)) = vz (cam_pos c))"

definition controls_idle :: controls where
  "controls_idle c = c"

definition controls_rotate_left :: "jsnum \<Rightarrow> jsnum \<Rightarrow> controls" where
  "controls_rotate_left cs sn c =
     c\<lparr>cam_pos := \<lparr>vx = vx (cam_pos c) * cs + vz (cam_pos c) * sn,
                   vy = vy (cam_pos c),
                   vz = vz (cam_pos c) * cs - vx (cam_pos c) * sn\<rparr>\<rparr>"

lemma set_z_pos [simp]:
  "vz (cam_pos (set_z z c)) = z"
  "vx (cam_pos (set_z z c)) = vx (cam_pos c)"
  "vy (cam_pos (set_z z c)) = vy (cam_pos c)"
  by (simp_all add: set_z_def)

lemma set_z_lens [simp]:
  "fov (set_z z c) = fov c" "aspect (set_z z c) = aspect c"
  "near (set_z z c) = near c" "far (set_z z c) = far c"
  by (simp_all add: set_z_def)

lemma set_z_set_z [simp]: "set_z z (set_z z' c) = set_z z c"
  by (simp add: set_z_def)

lemma controls_keep_depthD:
  "controls_keep_depth u \<Longrightarrow> vz (cam_pos (u c)) = vz (cam_pos c)"
  by (simp add: controls_keep_depth_def)

lemma controls_idle_keeps_depth [simp]: "controls_keep_depth controls_idle"
  by (simp add: controls_keep_depth_def controls_idle_def)

end
