(* ===== verification/Renderer.thy ===== *)
theory Renderer
  imports Scene Camera
begin

text \<open>
  The Render Sink: a three.js \<open>WebGLRenderer\<close> (App.jsx lines 21--27 and 113).
  Its state is its configuration and the frames it has drawn; a frame is the snapshot
  of what \<open>render(scene, camera)\<close> reads: the scene's children, its background and
  the camera. three.js \<open>render\<close> returns at once while the WebGL context is lost
  (its \<open>webglcontextlost\<close> listener sets the flag, \<open>webglcontextrestored\<close>
  clears it), so a lost context draws nothing and raises nothing.
\<close>

datatype color_space = SRGBColorSpace | LinearSRGBColorSpace

record frame =
  fr_objects :: "obj3d list"
  fr_camera :: camera
  fr_background :: "texture option"

record renderer =
  pixel_ratio :: jsnum
  width :: nat
  height :: nat
  output_color_space :: color_space
  context_lost :: bool
  frames :: "frame list"

text \<open>\<open>new WebGLRenderer({canvas})\<close>: a canvas of the HTML default size 300 by 150.\<close>

definition webgl_renderer :: renderer where
  "webgl_renderer =
     \<lparr>pixel_ratio = 1, width = 300, height = 150, output_color_space = SRGBColorSpace,
      context_lost = False, frames = []\<rparr>"

definition set_pixel_ratio :: "jsnum \<Rightarrow> renderer \<Rightarrow> renderer" where
  "set_pixel_ratio p r = r\<lparr>pixel_ratio := p\<rparr>"

definition set_size :: "nat \<Rightarrow> nat \<Rightarrow> renderer \<Rightarrow> renderer" where
  "set_size w h r = r\<lparr>width := w, height := h\<rparr>"

definition snapshot :: "store \<Rightarrow> scene \<Rightarrow> camera \<Rightarrow> frame" where
  "snapshot objs s c = \<lparr>fr_objects = visible objs s, fr_camera = c, fr_background = background s\<rparr>"

definition render :: "store \<Rightarrow> scene \<Rightarrow> camera \<Rightarrow> renderer \<Rightarrow> renderer" where
  "render objs s c r = (if context_lost r then r else r\<lparr>frames := frames r @ [snapshot objs s c]\<rparr>)"

definition lose_context :: "renderer \<Rightarrow> renderer" where
  "lose_context r = r\<lparr>context_lost := True\<rparr>"

definition restore_context :: "renderer \<Rightarrow> renderer" where
  "restore_context r = r\<lparr>context_lost := False\<rparr>"

lemma render_config [simp]:
  "pixel_ratio (render objs s c r) = pixel_ratio r"
  "width (render objs s c r) = width r" "height (render objs s c r) = height r"
  "context_lost (render objs s c r) = context_lost r"
  by (simp_all add: render_def)

lemma frames_render:
  "frames (render objs s c r) = frames r @ (if context_lost r then [] else [snapshot objs s c])"
  by (simp add: render_def)

end
