(* ===== verification/App.thy ===== *)
theory App
  imports StarField Renderer
begin

text \<open>
  The App component (App.jsx lines 9--117): the state its effect builds and the two
  handlers it installs. \<open>app\<close> extends the construction stage with the camera, the
  renderer and the three references the handlers close over (\<open>torus\<close>, \<open>moon\<close>,
  \<open>jeffBox\<close>). \<open>mount_scene\<close> is the effect body up to the handler
  installation (lines 13--86), with the one raise of the construction path: three.js
  throws when no WebGL context can be created. \<open>move_camera\<close> is the scroll handler
  (lines 89--100); \<open>animate_frame\<close> is the body of \<open>animate\<close> after its
  \<open>requestAnimationFrame\<close> call (lines 108--113), with the orbit controls' update
  hook as a parameter. The host page (window size, pixel ratio, WebGL availability and
  the \<open>Math.random\<close> sequence) is the record \<open>host\<close>.
\<close>

record host =
  inner_width :: nat
  inner_height :: nat
  device_pixel_ratio :: jsnum
  webgl_available :: bool
  math_random :: "nat \<Rightarrow> jsnum"

datatype error = ConstructionError

record app = stage +
  camera :: camera
  renderer :: renderer
  torus :: oid
  moon :: oid
  jeff_box :: oid

definition torus_kind :: obj_kind where
  "torus_kind = Mesh (TorusGeometry 10 3 16 100)
     (mesh_standard_material\<lparr>color := 0xff6347, roughness := 0.4, metalness := 0.3\<rparr>)"

definition jeff_kind :: obj_kind where
  "jeff_kind = Mesh (BoxGeometry 3 3 3)
     (mesh_standard_material\<lparr>tex_map := Some (Texture ''jeff.png'')\<rparr>)"

definition moon_kind :: obj_kind where
  "moon_kind = Mesh (SphereGeometry 3 32 32)
     (mesh_standard_material\<lparr>tex_map := Some (Texture ''moon.jpg''),
                             normal_map := Some (Texture ''normal.jpg'')\<rparr>)"

text \<open>\<open>const m = new Mesh(...); m.position.set(p); scene.add(m)\<close>.\<close>

definition add_object :: "obj_kind \<Rightarrow> vec3 \<Rightarrow> 'a stage_scheme \<Rightarrow> oid \<times> 'a stage_scheme" where
  "add_object k p st =
     (let (i, st1) = alloc ((new_object k)\<lparr>position := p\<rparr>) st in (i, add_to_scene i st1))"

definition vec3 :: "jsnum \<Rightarrow> jsnum \<Rightarrow> jsnum \<Rightarrow> vec3" where
  "vec3 a b c = \<lparr>vx = a, vy = b, vz = c\<rparr>"

definition mount_scene :: "host \<Rightarrow> nat \<Rightarrow> error + app" where
  "mount_scene h d =
     (let cam = set_z 30 (perspective_camera 75
                  (of_nat (inner_width h) / of_nat (inner_height h)) 0.1 1000)
      in if \<not> webgl_available h then Inl ConstructionError
      else
        (let r = set_size (inner_width h) (inner_height h)
                   (set_pixel_ratio (device_pixel_ratio h) webgl_renderer);
             a0 = \<lparr>objs = Map.empty, next_oid = 0, scene = empty_scene, draws = d,
                   camera = cam, renderer = r, torus = 0, moon = 0, jeff_box = 0\<rparr>;
             (tor, a1) = add_object torus_kind (vec3 0 0 (-20)) a0;
             (pl, a2) = add_object (PointLight 0xffffff 2) (vec3 20 20 20) a1;
             (al, a3) = add_object (AmbientLight 0xffffff 0.7) vec3_zero a2;
             a4 = add_stars 200 (math_random h) a3;
             a5 = a4\<lparr>scene := (scene a4)\<lparr>background := Some (Texture ''space.jpg'')\<rparr>\<rparr>;
             (jb, a6) = add_object jeff_kind (vec3 2 0 (-5)) a5;
             (mn, a7) = add_object moon_kind (vec3 (-10) 0 30) a6
         in Inr (a7\<lparr>torus := tor, moon := mn, jeff_box := jb\<rparr>)))"

definition moon_spin :: vec3 where
  "moon_spin = vec3 0.05 0.075 0.05"

definition jeff_spin :: vec3 where
  "jeff_spin = vec3 0 0.01 0.01"

definition torus_spin :: vec3 where
  "torus_spin = vec3 0.01 0.005 0.01"

text \<open>\<open>camera.position.z = 30 + t * -0.01\<close>, with \<open>t\<close> the body's bounding-rect top.\<close>

definition scroll_camera_z :: "jsnum \<Rightarrow> jsnum" where
  "scroll_camera_z t = 30 + t * -0.01"

definition move_camera :: "jsnum \<Rightarrow> 'a app_scheme \<Rightarrow> 'a app_scheme" where
  "move_camera t a =
     (let a1 = a\<lparr>objs := rotate_obj moon_spin (moon a) (objs a)\<rparr>;
          a2 = a1\<lparr>objs := rotate_obj jeff_spin (jeff_box a1) (objs a1)\<rparr>
      in a2\<lparr>camera := set_z (scroll_camera_z t) (camera a2)\<rparr>)"

definition animate_frame :: "controls \<Rightarrow> 'a app_scheme \<Rightarrow> 'a app_scheme" where
  "animate_frame u a =
     (let a1 = a\<lparr>objs := rotate_obj torus_spin (torus a) (objs a)\<rparr>;
          a2 = a1\<lparr>camera := u (camera a1)\<rparr>
      in a2\<lparr>renderer := render (objs a2) (scene a2) (camera a2) (renderer a2)\<rparr>)"

definition app_wf :: "'a app_scheme \<Rightarrow> bool" where
  "app_wf a \<longleftrightarrow> stage_wf a
     \<and> list_all (\<lambda>i. i \<in> set (children (scene a))) [torus a, moon a, jeff_box a]
     \<and> distinct [torus a, moon a, jeff_box a]"

text \<open>The rotation an object reference currently has, as the handlers see it.\<close>

definition rotation_at :: "'a stage_scheme \<Rightarrow> oid \<Rightarrow> vec3 option" where
  "rotation_at st i = map_option rotation (objs st i)"

text \<open>A small well-formed app (torus, moon and box only), the input of the witnesses.\<close>

abbreviation sample_app :: app where
  "sample_app \<equiv>
     \<lparr>objs = [0 \<mapsto> new_object torus_kind, 1 \<mapsto> new_object moon_kind, 2 \<mapsto> new_object jeff_kind],
      next_oid = 3, scene = \<lparr>children = [0, 1, 2], background = None\<rparr>, draws = 0,
      camera = set_z 30 (perspective_camera 75 (4 / 3) 0.1 1000), renderer = webgl_renderer,
      torus = 0, moon = 1, jeff_box = 2\<rparr>"

lemma add_star_app_fields:
  "camera (add_star rnd a) = camera a \<and> renderer (add_star rnd a) = renderer a
   \<and> torus (add_star rnd a) = torus a \<and> moon (add_star rnd a) = moon a
   \<and> jeff_box (add_star rnd a) = jeff_box a"
  by (simp add: add_star_def alloc_def add_to_scene_def split: prod.split)

lemma add_stars_app_fields [simp]:
  "camera (add_stars n rnd a) = camera a" "renderer (add_stars n rnd a) = renderer a"
  "torus (add_stars n rnd a) = torus a" "moon (add_stars n rnd a) = moon a"
  "jeff_box (add_stars n rnd a) = jeff_box a"
  by (induction n arbitrary: a) (simp_all add: add_star_app_fields)

text \<open>
  \<open>add_object\<close> through its selectors, so that a chain of additions (the effect
  body) simplifies without unfolding the intermediate records.
\<close>

lemma add_object_sel [simp]:
  "fst (add_object k p st) = next_oid st"
  "next_oid (snd (add_object k p st)) = Suc (next_oid st)"
  "objs (snd (add_object k p st)) = (objs st)(next_oid st \<mapsto> (new_object k)\<lparr>position := p\<rparr>)"
  "draws (snd (add_object k p st)) = draws st"
  "background (scene (snd (add_object k p st))) = background (scene st)"
  by (simp_all add: add_object_def alloc_def add_to_scene_def scene_add_def)

lemma add_object_app_sel [simp]:
  "camera (snd (add_object k p a)) = camera a" "renderer (snd (add_object k p a)) = renderer a"
  "torus (snd (add_object k p a)) = torus a" "moon (snd (add_object k p a)) = moon a"
  "jeff_box (snd (add_object k p a)) = jeff_box a"
  by (simp_all add: add_object_def alloc_def add_to_scene_def)

lemma add_object_wf [simp]:
  assumes "stage_wf st"
  shows "stage_wf (snd (add_object k p st))"
    and "children (scene (snd (add_object k p st))) = children (scene st) @ [next_oid st]"
  using add_to_scene_alloc_eq [OF assms] stage_wf_append_fresh [OF assms]
  by (simp_all add: add_object_def alloc_def)

lemma stage_wf_app_refs [simp]:
  "stage_wf (a\<lparr>torus := t, moon := m, jeff_box := j\<rparr>) = stage_wf a"
  by (simp add: stage_wf_def)

lemma rotation_at_rotate [simp]:
  "map_option rotation (rotate_obj d i m j) =
     (if j = i then map_option (\<lambda>r. vec3_add r d) (map_option rotation (m i))
      else map_option rotation (m j))"
  by (simp add: rotate_obj_def update_obj_def option.map_comp comp_def)

lemma move_camera_sel [simp]:
  "objs (move_camera t a) = rotate_obj jeff_spin (jeff_box a) (rotate_obj moon_spin (moon a) (objs a))"
  "camera (move_camera t a) = set_z (scroll_camera_z t) (camera a)"
  "scene (move_camera t a) = scene a" "renderer (move_camera t a) = renderer a"
  "next_oid (move_camera t a) = next_oid a" "draws (move_camera t a) = draws a"
  "torus (move_camera t a) = torus a" "moon (move_camera t a) = moon a"
  "jeff_box (move_camera t a) = jeff_box a"
  by (simp_all add: move_camera_def Let_def)

lemma animate_frame_sel [simp]:
  "objs (animate_frame u a) = rotate_obj torus_spin (torus a) (objs a)"
  "camera (animate_frame u a) = u (camera a)"
  "renderer (animate_frame u a) =
     render (rotate_obj torus_spin (torus a) (objs a)) (scene a) (u (camera a)) (renderer a)"
  "scene (animate_frame u a) = scene a"
  "next_oid (animate_frame u a) = next_oid a" "draws (animate_frame u a) = draws a"
  "torus (animate_frame u a) = torus a" "moon (animate_frame u a) = moon a"
  "jeff_box (animate_frame u a) = jeff_box a"
  by (simp_all add: animate_frame_def Let_def)

lemma app_wf_move_camera [wf_intros]: "app_wf a \<Longrightarrow> app_wf (move_camera t a)"
  by (simp add: app_wf_def stage_wf_def scene_wf_def rotate_obj_def)

lemma app_wf_animate_frame [wf_intros]: "app_wf a \<Longrightarrow> app_wf (animate_frame u a)"
  by (simp add: app_wf_def stage_wf_def scene_wf_def rotate_obj_def)

lemma app_wf_refs:
  "app_wf a \<Longrightarrow> torus a \<noteq> moon a \<and> torus a \<noteq> jeff_box a \<and> moon a \<noteq> jeff_box a"
  by (simp add: app_wf_def)

lemma sample_app_wf: "app_wf sample_app"
  by (simp add: app_wf_def stage_wf_def scene_wf_def)

lemma animate_frames_iter:
  "context_lost (renderer ((animate_frame u ^^ n) a)) = context_lost (renderer a)
   \<and> length (frames (renderer ((animate_frame u ^^ n) a))) =
       length (frames (renderer a)) + (if context_lost (renderer a) then 0 else n)"
  by (induction n) (simp_all add: frames_render)

lemma animate_refs_iter [simp]:
  "torus ((animate_frame u ^^ n) a) = torus a" "moon ((animate_frame u ^^ n) a) = moon a"
  "jeff_box ((animate_frame u ^^ n) a) = jeff_box a"
  by (induction n) simp_all

lemma animate_rotation_iter:
  "rotation_at ((animate_frame u ^^ n) a) (torus a) =
     map_option (\<lambda>r. vec3_add r (vec3_scale n torus_spin)) (rotation_at a (torus a))"
  by (induction n) (simp_all add: rotation_at_def option.map_comp comp_def vec3_scale_Suc
      vec3_add_assoc)

lemma move_camera_fold_refs [simp]:
  "torus (fold move_camera ts a) = torus a" "moon (fold move_camera ts a) = moon a"
  "jeff_box (fold move_camera ts a) = jeff_box a" "renderer (fold move_camera ts a) = renderer a"
  "scene (fold move_camera ts a) = scene a"
  by (induction ts arbitrary: a) simp_all

lemma move_camera_fold_rotation:
  "moon a \<noteq> jeff_box a \<Longrightarrow>
   rotation_at (fold move_camera ts a) (moon a) =
     map_option (\<lambda>r. vec3_add r (vec3_scale (length ts) moon_spin)) (rotation_at a (moon a))
   \<and> rotation_at (fold move_camera ts a) (jeff_box a) =
     map_option (\<lambda>r. vec3_add r (vec3_scale (length ts) jeff_spin)) (rotation_at a (jeff_box a))"
proof (induction ts arbitrary: a)
  case (Cons t ts)
  have "moon (move_camera t a) \<noteq> jeff_box (move_camera t a)" using Cons.prems by simp
  from Cons.IH [OF this] Cons.prems show ?case
    by (simp add: rotation_at_def option.map_comp comp_def vec3_scale_Suc_left vec3_add_assoc)
qed (simp add: rotation_at_def option.map_comp comp_def)

lemma mount_scene_facts:
  assumes "webgl_available h"
  shows "\<exists>a. mount_scene h d = Inr a \<and> app_wf a
    \<and> children (scene a) = [0, 1, 2] @ [3..<203] @ [203, 204]
    \<and> torus a = 0 \<and> jeff_box a = 203 \<and> moon a = 204 \<and> draws a = d + 600
    \<and> objs a 0 = Some ((new_object torus_kind)\<lparr>position := vec3 0 0 (-20)\<rparr>)
    \<and> objs a 203 = Some ((new_object jeff_kind)\<lparr>position := vec3 2 0 (-5)\<rparr>)
    \<and> objs a 204 = Some ((new_object moon_kind)\<lparr>position := vec3 (-10) 0 30\<rparr>)
    \<and> background (scene a) = Some (Texture ''space.jpg'')
    \<and> camera a = set_z 30 (perspective_camera 75
                  (of_nat (inner_width h) / of_nat (inner_height h)) 0.1 1000)
    \<and> renderer a = set_size (inner_width h) (inner_height h)
                  (set_pixel_ratio (device_pixel_ratio h) webgl_renderer)
    \<and> frames (renderer a) = [] \<and> \<not> context_lost (renderer a)
    \<and> (\<forall>j. 3 \<le> j \<and> j < 203 \<longrightarrow> objs a j = Some (star_at (math_random h) (d + 3 * (j - 3))))"
proof -
  have w0: "stage_wf \<lparr>objs = Map.empty, next_oid = 0, scene = empty_scene, draws = d,
                   camera = c, renderer = r, torus = 0, moon = 0, jeff_box = 0\<rparr>" for c r
    by (simp add: stage_wf_def scene_wf_def empty_scene_def)
  show ?thesis using assms w0
    by (simp add: mount_scene_def Let_def split_beta add_stars_children app_wf_def
        empty_scene_def add_stars_objs set_size_def set_pixel_ratio_def webgl_renderer_def
        numeral_3_eq_3 [symmetric] del: upt_rec_numeral)
qed

subsection \<open>Properties of the effect and its handlers\<close>

text \<open>
  C15: with WebGL available, the effect builds the scene the code describes: 205 children
  in creation order (torus, point light, ambient light, 200 stars, box, moon), a
  well-formed app whose three handler references are the torus, the box and the moon,
  600 random draws, the camera at depth 30, a renderer of the window's size and no
  frame drawn yet.
\<close>

theorem mount_scene_result:
  assumes "webgl_available h"
  shows "\<exists>a. mount_scene h d = Inr a \<and> app_wf a
    \<and> children (scene a) = [0, 1, 2] @ [3..<203] @ [203, 204]
    \<and> torus a = 0 \<and> jeff_box a = 203 \<and> moon a = 204 \<and> draws a = d + 600
    \<and> objs a 0 = Some ((new_object torus_kind)\<lparr>position := vec3 0 0 (-20)\<rparr>)
    \<and> objs a 204 = Some ((new_object moon_kind)\<lparr>position := vec3 (-10) 0 30\<rparr>)
    \<and> background (scene a) = Some (Texture ''space.jpg'')
    \<and> camera a = set_z 30 (perspective_camera 75
                  (of_nat (inner_width h) / of_nat (inner_height h)) 0.1 1000)
    \<and> renderer a = set_size (inner_width h) (inner_height h)
                  (set_pixel_ratio (device_pixel_ratio h) webgl_renderer)
    \<and> frames (renderer a) = []"
  using mount_scene_facts [OF assms, of d] by blast

theorem mount_scene_result_witness:
  "\<exists>a. mount_scene \<lparr>inner_width = 800, inner_height = 600, device_pixel_ratio = 1,
         webgl_available = True, math_random = \<lambda>_. 0\<rparr> 0 = Inr a \<and> app_wf a
    \<and> children (scene a) = [0, 1, 2] @ [3..<203] @ [203, 204]
    \<and> torus a = 0 \<and> jeff_box a = 203 \<and> moon a = 204 \<and> draws a = 0 + 600
    \<and> objs a 0 = Some ((new_object torus_kind)\<lparr>position := vec3 0 0 (-20)\<rparr>)
    \<and> objs a 204 = Some ((new_object moon_kind)\<lparr>position := vec3 (-10) 0 30\<rparr>)
    \<and> background (scene a) = Some (Texture ''space.jpg'')
    \<and> camera a = set_z 30 (perspective_camera 75 (of_nat 800 / of_nat 600) 0.1 1000)
    \<and> renderer a = set_size 800 600 (set_pixel_ratio 1 webgl_renderer)
    \<and> frames (renderer a) = []"
  using mount_scene_result [of "\<lparr>inner_width = 800, inner_height = 600, device_pixel_ratio = 1,
         webgl_available = True, math_random = \<lambda>_. 0\<rparr>" 0] by simp

text \<open>
  C9: the scroll handler sets the camera depth to \<open>30 + t * -0.01\<close> for the
  bounding-rect top \<open>t\<close>, whatever the state before: the depth is a function of the
  current scroll offset alone, with nothing accumulated across events; the other two
  coordinates of the camera are left alone.
\<close>

theorem move_camera_depth:
  "cam_pos (camera (move_camera t a)) = (cam_pos (camera a))\<lparr>vz := 30 + t * -0.01\<rparr>"
  by (simp add: set_z_def scroll_camera_z_def)

text \<open>
  C11: each scroll event turns the moon by \<open>(0.05, 0.075, 0.05)\<close> and the box by
  \<open>(0, 0.01, 0.01)\<close>, leaves the torus, the scene and the renderer alone (a scroll
  draws no frame), and keeps the app well-formed.
\<close>

theorem move_camera_rotations:
  assumes "app_wf a"
  shows "rotation_at (move_camera t a) (moon a) =
           map_option (\<lambda>r. vec3_add r moon_spin) (rotation_at a (moon a))
    \<and> rotation_at (move_camera t a) (jeff_box a) =
           map_option (\<lambda>r. vec3_add r jeff_spin) (rotation_at a (jeff_box a))
    \<and> rotation_at (move_camera t a) (torus a) = rotation_at a (torus a)
    \<and> scene (move_camera t a) = scene a \<and> renderer (move_camera t a) = renderer a
    \<and> app_wf (move_camera t a)"
  using app_wf_refs [OF assms] app_wf_move_camera [OF assms]
  by (simp add: rotation_at_def option.map_comp comp_def)

theorem move_camera_rotations_witness:
  "rotation_at (move_camera (-100) sample_app) (moon sample_app) =
           map_option (\<lambda>r. vec3_add r moon_spin) (rotation_at sample_app (moon sample_app))
    \<and> rotation_at (move_camera (-100) sample_app) (jeff_box sample_app) =
           map_option (\<lambda>r. vec3_add r jeff_spin) (rotation_at sample_app (jeff_box sample_app))
    \<and> rotation_at (move_camera (-100) sample_app) (torus sample_app) = rotation_at sample_app (torus sample_app)
    \<and> scene (move_camera (-100) sample_app) = scene sample_app
    \<and> renderer (move_camera (-100) sample_app) = renderer sample_app
    \<and> app_wf (move_camera (-100) sample_app)"
  by (rule move_camera_rotations [OF sample_app_wf])

text \<open>
  C7: one animation frame turns the torus by \<open>(0.01, 0.005, 0.01)\<close>, then runs
  the orbit controls' update on the camera, then renders: the frame drawn (when the
  context is not lost) shows the scene with the torus already turned and the camera
  already updated, so no half-updated state is ever drawn; the moon and the box are
  left alone.
\<close>

theorem animate_frame_tick:
  assumes "app_wf a"
  shows "rotation_at (animate_frame u a) (torus a) =
           map_option (\<lambda>r. vec3_add r torus_spin) (rotation_at a (torus a))
    \<and> rotation_at (animate_frame u a) (moon a) = rotation_at a (moon a)
    \<and> rotation_at (animate_frame u a) (jeff_box a) = rotation_at a (jeff_box a)
    \<and> camera (animate_frame u a) = u (camera a)
    \<and> frames (renderer (animate_frame u a)) = frames (renderer a) @
         (if context_lost (renderer a) then []
          else [snapshot (objs (animate_frame u a)) (scene (animate_frame u a))
                  (camera (animate_frame u a))])
    \<and> app_wf (animate_frame u a)"
  using app_wf_refs [OF assms] app_wf_animate_frame [OF assms]
  by (simp add: rotation_at_def option.map_comp comp_def frames_render)

theorem animate_frame_tick_witness:
  "rotation_at (animate_frame controls_idle sample_app) (torus sample_app) =
           map_option (\<lambda>r. vec3_add r torus_spin) (rotation_at sample_app (torus sample_app))
    \<and> rotation_at (animate_frame controls_idle sample_app) (moon sample_app) =
        rotation_at sample_app (moon sample_app)
    \<and> rotation_at (animate_frame controls_idle sample_app) (jeff_box sample_app) =
        rotation_at sample_app (jeff_box sample_app)
    \<and> camera (animate_frame controls_idle sample_app) = controls_idle (camera sample_app)
    \<and> frames (renderer (animate_frame controls_idle sample_app)) = frames (renderer sample_app) @
         (if context_lost (renderer sample_app) then []
          else [snapshot (objs (animate_frame controls_idle sample_app))
                  (scene (animate_frame controls_idle sample_app))
                  (camera (animate_frame controls_idle sample_app))])
    \<and> app_wf (animate_frame controls_idle sample_app)"
  by (rule animate_frame_tick [OF sample_app_wf])

text \<open>
  C8: after \<open>T\<close> frames the torus has turned by exactly \<open>T (0.01, 0.005, 0.01)\<close>
  (exact in the rational model), and the renderer has drawn exactly \<open>T\<close> more
  frames, or none while the context is lost.
\<close>

theorem animate_frames_count:
  "rotation_at ((animate_frame u ^^ T) a) (torus a) =
     map_option (\<lambda>r. vec3_add r (vec3_scale T torus_spin)) (rotation_at a (torus a))
   \<and> length (frames (renderer ((animate_frame u ^^ T) a))) =
       length (frames (renderer a)) + (if context_lost (renderer a) then 0 else T)"
  using animate_rotation_iter animate_frames_iter by blast

text \<open>
  C10: scroll events are never coalesced: after a sequence of scroll events the moon
  and the box have turned once per event, and the camera depth is the one the last
  event's offset gives.
\<close>

theorem scroll_events_each_count:
  assumes "app_wf a" and "ts \<noteq> []"
  shows "rotation_at (fold move_camera ts a) (moon a) =
           map_option (\<lambda>r. vec3_add r (vec3_scale (length ts) moon_spin)) (rotation_at a (moon a))
    \<and> rotation_at (fold move_camera ts a) (jeff_box a) =
           map_option (\<lambda>r. vec3_add r (vec3_scale (length ts) jeff_spin)) (rotation_at a (jeff_box a))
    \<and> vz (cam_pos (camera (fold move_camera ts a))) = scroll_camera_z (last ts)"
proof -
  have depth: "vz (cam_pos (camera (fold move_camera ts a))) = scroll_camera_z (last ts)"
    using assms(2) by (induction ts arbitrary: a rule: list_nonempty_induct) simp_all
  with move_camera_fold_rotation app_wf_refs [OF assms(1)] show ?thesis by blast
qed

theorem scroll_events_each_count_witness:
  "rotation_at (fold move_camera [-100, -200] sample_app) (moon sample_app) =
           map_option (\<lambda>r. vec3_add r (vec3_scale (length [-100, -200 :: jsnum]) moon_spin))
             (rotation_at sample_app (moon sample_app))
    \<and> rotation_at (fold move_camera [-100, -200] sample_app) (jeff_box sample_app) =
           map_option (\<lambda>r. vec3_add r (vec3_scale (length [-100, -200 :: jsnum]) jeff_spin))
             (rotation_at sample_app (jeff_box sample_app))
    \<and> vz (cam_pos (camera (fold move_camera [-100, -200] sample_app))) =
        scroll_camera_z (last [-100, -200])"
  by (rule scroll_events_each_count [OF sample_app_wf]) simp

text \<open>
  The specification's disjointness of the two camera writers fails for OrbitControls:
  after a horizontal drag (here a rotation with cosine 3/5 and sine 4/5), its update
  rewrites \<open>position.z\<close>, so a frame after a scroll to \<open>t = -500\<close> leaves the camera
  at depth 21 instead of the 35 the scroll handler wrote. The idle controls keep the
  depth, which is all the code relies on while the canvas takes no pointer events.
\<close>

theorem orbit_drag_overwrites_depth:
  "\<not> controls_keep_depth (controls_rotate_left (3 / 5) (4 / 5))
   \<and> vz (cam_pos (camera (move_camera (-500) sample_app))) = 35
   \<and> vz (cam_pos (camera (animate_frame (controls_rotate_left (3 / 5) (4 / 5))
          (move_camera (-500) sample_app)))) = 21
   \<and> controls_keep_depth controls_idle"
proof -
  have "vz (cam_pos (controls_rotate_left (3 / 5) (4 / 5) (camera sample_app))) \<noteq>
        vz (cam_pos (camera sample_app))"
    by (simp add: controls_rotate_left_def perspective_camera_def)
  then have "\<not> controls_keep_depth (controls_rotate_left (3 / 5) (4 / 5))"
    unfolding controls_keep_depth_def by blast
  then show ?thesis
    by (simp add: controls_rotate_left_def scroll_camera_z_def perspective_camera_def)
qed

text \<open>
  C12: the scroll depth moves one way: the further the page is scrolled down (the more
  negative the bounding-rect top), the larger the camera depth, and a page scrolled
  down at all puts the camera at depth 30 or more.
\<close>

theorem scroll_depth_monotone:
  assumes "t' \<le> t" and "t \<le> 0"
  shows "scroll_camera_z t \<le> scroll_camera_z t' \<and> 30 \<le> scroll_camera_z t"
  using assms by (simp add: scroll_camera_z_def)

theorem scroll_depth_monotone_witness:
  "scroll_camera_z (-100) \<le> scroll_camera_z (-500) \<and> 30 \<le> scroll_camera_z (-100)"
  by (rule scroll_depth_monotone) simp_all

end
