(* ===== verification/EventLoop.thy ===== *)
theory EventLoop
  imports App
begin

text \<open>
  The browser side of the program: the effect run by React, the
  \<open>requestAnimationFrame\<close> queue that drives \<open>animate\<close>, the single
  \<open>document.body.onscroll\<close> slot that holds \<open>moveCamera\<close>, and the WebGL context
  events. All run on one thread, interleaved and never overlapping, so the host is a
  deterministic function of the next event (\<open>step\<close>) and an execution is a list of
  events (\<open>run\<close>). The world holds the state of every effect run (each run creates
  its own scene, camera and renderer), the pending animation-frame callbacks by the run
  they belong to, the run whose handler sits in the scroll slot, the \<open>Math.random\<close>
  counter and the exceptions reported to the host. A window resize is an event too: the
  code installs no resize listener, so it changes nothing the program holds.
\<close>

datatype event =
    Mount
  | AnimationFrame
  | Scroll jsnum
  | ContextLost
  | ContextRestored
  | Resize nat nat

record world =
  apps :: "app list"
  raf_queue :: "nat list"
  onscroll :: "nat option"
  rng :: nat
  errors :: "error list"

definition init_world :: world where
  "init_world = \<lparr>apps = [], raf_queue = [], onscroll = None, rng = 0, errors = []\<rparr>"

text \<open>\<open>requestAnimationFrame(animate)\<close> of the effect run \<open>i\<close>.\<close>

definition request_animation_frame :: "nat \<Rightarrow> world \<Rightarrow> world" where
  "request_animation_frame i w = w\<lparr>raf_queue := raf_queue w @ [i]\<rparr>"

definition update_app :: "nat \<Rightarrow> (app \<Rightarrow> app) \<Rightarrow> world \<Rightarrow> world" where
  "update_app i f w = w\<lparr>apps := (apps w)[i := f (apps w ! i)]\<rparr>"

text \<open>\<open>animate\<close> of run \<open>i\<close>: it reschedules itself first, then does the frame's work.\<close>

definition animate :: "controls \<Rightarrow> nat \<Rightarrow> world \<Rightarrow> world" where
  "animate u i w = update_app i (animate_frame u) (request_animation_frame i w)"

text \<open>
  The effect: build the scene; on a throw, the exception reaches the host and nothing
  is installed; otherwise install \<open>moveCamera\<close> in the scroll slot (replacing
  whatever was there) and call \<open>animate()\<close> once.
\<close>

definition mount_effect :: "host \<Rightarrow> controls \<Rightarrow> world \<Rightarrow> world" where
  "mount_effect h u w =
     (case mount_scene h (rng w) of
        Inl e \<Rightarrow> w\<lparr>errors := errors w @ [e]\<rparr>
      | Inr a \<Rightarrow>
          (let i = length (apps w);
               w1 = w\<lparr>apps := apps w @ [a], rng := draws a, onscroll := Some i\<rparr>
           in animate u i w1))"

text \<open>
  A display refresh runs the callbacks that were pending when it began, in order; the
  ones they request wait for the next refresh.
\<close>

definition run_animation_frame :: "controls \<Rightarrow> world \<Rightarrow> world" where
  "run_animation_frame u w = fold (animate u) (raf_queue w) (w\<lparr>raf_queue := []\<rparr>)"

definition dispatch_scroll :: "jsnum \<Rightarrow> world \<Rightarrow> world" where
  "dispatch_scroll t w =
     (case onscroll w of None \<Rightarrow> w | Some i \<Rightarrow> update_app i (move_camera t) w)"

text \<open>Every renderer of the page draws into the same canvas, hence the same context.\<close>

definition set_context :: "(renderer \<Rightarrow> renderer) \<Rightarrow> world \<Rightarrow> world" where
  "set_context f w = w\<lparr>apps := map (\<lambda>a. a\<lparr>renderer := f (renderer a)\<rparr>) (apps w)\<rparr>"

fun step :: "host \<Rightarrow> controls \<Rightarrow> world \<Rightarrow> event \<Rightarrow> world" where
  "step h u w Mount = mount_effect h u w"
| "step h u w AnimationFrame = run_animation_frame u w"
| "step h u w (Scroll t) = dispatch_scroll t w"
| "step h u w ContextLost = set_context lose_context w"
| "step h u w ContextRestored = set_context restore_context w"
| "step h u w (Resize wd ht) = w"

definition run :: "host \<Rightarrow> controls \<Rightarrow> world \<Rightarrow> event list \<Rightarrow> world" where
  "run h u w es = fold (\<lambda>e w. step h u w e) es w"

text \<open>
  A page view: the effect runs once, then any interleaving of refreshes, scroll events
  and context events follows.
\<close>

inductive page_reachable :: "host \<Rightarrow> controls \<Rightarrow> world \<Rightarrow> bool" for h u where
  mounted: "page_reachable h u (mount_effect h u init_world)"
| event: "page_reachable h u w \<Longrightarrow> e \<noteq> Mount \<Longrightarrow> page_reachable h u (step h u w e)"

text \<open>The invariant of a page view whose effect succeeded: one run, one binding of each kind.\<close>

definition page_inv :: "world \<Rightarrow> bool" where
  "page_inv w \<longleftrightarrow> length (apps w) = 1 \<and> app_wf (hd (apps w))
     \<and> raf_queue w = [0] \<and> onscroll w = Some 0"

text \<open>What a non-mount event does to the state of the single run of a page view.\<close>

fun app_event :: "controls \<Rightarrow> event \<Rightarrow> app \<Rightarrow> app" where
  "app_event u Mount a = a"
| "app_event u AnimationFrame a = animate_frame u a"
| "app_event u (Scroll t) a = move_camera t a"
| "app_event u ContextLost a = a\<lparr>renderer := lose_context (renderer a)\<rparr>"
| "app_event u ContextRestored a = a\<lparr>renderer := restore_context (renderer a)\<rparr>"
| "app_event u (Resize wd ht) a = a"

definition scroll_offsets :: "event list \<Rightarrow> jsnum list" where
  "scroll_offsets es = List.map_filter (\<lambda>e. case e of Scroll t \<Rightarrow> Some t | _ \<Rightarrow> None) es"

definition frame_count :: "event list \<Rightarrow> nat" where
  "frame_count es = length (filter (\<lambda>e. e = AnimationFrame) es)"

text \<open>What every frame of a page view shows: the whole mounted scene, with its background.\<close>

definition frames_complete :: "app \<Rightarrow> bool" where
  "frames_complete a \<longleftrightarrow> length (children (scene a)) = 205
     \<and> background (scene a) = Some (Texture ''space.jpg'')
     \<and> (\<forall>f\<in>set (frames (renderer a)). length (fr_objects f) = 205
            \<and> fr_background f = Some (Texture ''space.jpg''))"

text \<open>The host of the witnesses: an 800 by 600 window with WebGL.\<close>

abbreviation sample_host :: host where
  "sample_host \<equiv> \<lparr>inner_width = 800, inner_height = 600, device_pixel_ratio = 1,
      webgl_available = True, math_random = \<lambda>k. 1 / 2\<rparr>"

text \<open>What each object reference holds, up to the rotation the handlers write.\<close>

definition obj_shape :: "'a stage_scheme \<Rightarrow> oid \<Rightarrow> (obj_kind \<times> vec3) option" where
  "obj_shape st j = map_option (\<lambda>ob. (kind ob, position ob)) (objs st j)"

lemma scroll_offsets_simps [simp]:
  "scroll_offsets [] = []"
  "scroll_offsets (Scroll t # es) = t # scroll_offsets es"
  "scroll_offsets (AnimationFrame # es) = scroll_offsets es"
  "scroll_offsets (Mount # es) = scroll_offsets es"
  "scroll_offsets (ContextLost # es) = scroll_offsets es"
  "scroll_offsets (ContextRestored # es) = scroll_offsets es"
  "scroll_offsets (Resize wd ht # es) = scroll_offsets es"
  by (simp_all add: scroll_offsets_def List.map_filter_simps)

lemma frame_count_simps [simp]:
  "frame_count [] = 0"
  "frame_count (AnimationFrame # es) = Suc (frame_count es)"
  "e \<noteq> AnimationFrame \<Longrightarrow> frame_count (e # es) = frame_count es"
  by (simp_all add: frame_count_def)

lemma app_event_refs [simp]:
  "torus (app_event u e a) = torus a" "moon (app_event u e a) = moon a"
  "jeff_box (app_event u e a) = jeff_box a" "scene (app_event u e a) = scene a"
  by (cases e; simp)+

lemma app_wf_renderer [simp]: "app_wf (a\<lparr>renderer := r\<rparr>) = app_wf a"
  by (simp add: app_wf_def stage_wf_def)

lemma app_wf_app_event [wf_intros]: "app_wf a \<Longrightarrow> app_wf (app_event u e a)"
  by (cases e) (simp_all add: wf_intros)

subsection \<open>A page view with one effect run\<close>

lemma step_page:
  assumes "page_inv w" and "e \<noteq> Mount"
  shows "step h u w e = w\<lparr>apps := [app_event u e (hd (apps w))]\<rparr>"
proof -
  obtain a where a: "apps w = [a]"
    using assms(1) by (auto simp: page_inv_def length_Suc_conv)
  show ?thesis
    using assms a
    by (cases e) (simp_all add: page_inv_def run_animation_frame_def animate_def update_app_def
        request_animation_frame_def dispatch_scroll_def set_context_def)
qed

lemma page_inv_step [wf_intros]:
  "page_inv w \<Longrightarrow> e \<noteq> Mount \<Longrightarrow> page_inv (step h u w e)"
  by (simp add: step_page) (simp add: page_inv_def app_wf_app_event)

lemma run_page:
  "page_inv w \<Longrightarrow> Mount \<notin> set es \<Longrightarrow>
   run h u w es = w\<lparr>apps := [fold (app_event u) es (hd (apps w))]\<rparr>"
proof (induction es arbitrary: w)
  case Nil
  then show ?case by (cases w) (auto simp: run_def page_inv_def length_Suc_conv)
next
  case (Cons e es)
  have ne: "e \<noteq> Mount" using Cons.prems(2) by auto
  have "page_inv (step h u w e)" using Cons.prems(1) ne by (rule page_inv_step)
  with Cons.IH [of "step h u w e"] Cons.prems show ?case
    by (simp add: run_def step_page [OF Cons.prems(1) ne])
qed

lemma fold_app_event_refs [simp]:
  "torus (fold (app_event u) es a) = torus a" "moon (fold (app_event u) es a) = moon a"
  "jeff_box (fold (app_event u) es a) = jeff_box a"
  by (induction es arbitrary: a) simp_all

lemma fold_app_event_rotation:
  assumes "app_wf a"
  shows "rotation_at (fold (app_event u) es a) (torus a) =
           map_option (\<lambda>r. vec3_add r (vec3_scale (frame_count es) torus_spin)) (rotation_at a (torus a))
    \<and> rotation_at (fold (app_event u) es a) (moon a) =
           map_option (\<lambda>r. vec3_add r (vec3_scale (length (scroll_offsets es)) moon_spin))
             (rotation_at a (moon a))
    \<and> rotation_at (fold (app_event u) es a) (jeff_box a) =
           map_option (\<lambda>r. vec3_add r (vec3_scale (length (scroll_offsets es)) jeff_spin))
             (rotation_at a (jeff_box a))"
  using assms
proof (induction es arbitrary: a)
  case Nil
  then show ?case by (simp add: rotation_at_def option.map_comp comp_def)
next
  case (Cons e es)
  have wf: "app_wf (app_event u e a)" using Cons.prems by (rule app_wf_app_event)
  have refs: "torus a \<noteq> moon a" "torus a \<noteq> jeff_box a" "moon a \<noteq> jeff_box a"
    using app_wf_refs [OF Cons.prems] by simp_all
  from Cons.IH [OF wf] refs show ?case
    by (cases e) (simp_all add: rotation_at_def option.map_comp comp_def vec3_scale_Suc_left
        vec3_add_assoc)
qed

lemma fold_app_event_depth:
  assumes "controls_keep_depth u"
  shows "vz (cam_pos (camera (fold (app_event u) es a))) =
    (if scroll_offsets es = [] then vz (cam_pos (camera a)) else scroll_camera_z (last (scroll_offsets es)))"
proof (induction es arbitrary: a)
  case (Cons e es)
  then show ?case
    by (cases e) (simp_all add: controls_keep_depthD [OF assms])
qed simp

lemma fold_app_event_frames:
  "ContextLost \<notin> set es \<Longrightarrow> \<not> context_lost (renderer a) \<Longrightarrow>
   \<not> context_lost (renderer (fold (app_event u) es a))
   \<and> length (frames (renderer (fold (app_event u) es a))) = length (frames (renderer a)) + frame_count es"
proof (induction es arbitrary: a)
  case (Cons e es)
  then show ?case
    by (cases e) (simp_all add: frames_render restore_context_def)
qed simp

lemma fold_app_event_wf [wf_intros]: "app_wf a \<Longrightarrow> app_wf (fold (app_event u) es a)"
  by (induction es arbitrary: a) (simp_all add: wf_intros)

lemma app_event_frames:
  "\<exists>fs. frames (renderer (app_event u e a)) = frames (renderer a) @ fs
     \<and> (\<forall>f\<in>set fs. fr_objects f = visible (objs (app_event u e a)) (scene a)
                   \<and> fr_background f = background (scene a))"
  by (cases e) (auto simp: frames_render snapshot_def lose_context_def restore_context_def)

lemma frames_complete_app_event:
  assumes "app_wf a" and "frames_complete a"
  shows "frames_complete (app_event u e a)"
proof -
  obtain fs where fs: "frames (renderer (app_event u e a)) = frames (renderer a) @ fs"
    and new: "\<forall>f\<in>set fs. fr_objects f = visible (objs (app_event u e a)) (scene a)
                   \<and> fr_background f = background (scene a)"
    using app_event_frames by blast
  have "scene_wf (objs (app_event u e a)) (scene a)"
    using app_wf_app_event [OF assms(1), of u e] by (simp add: app_wf_def stage_wf_def)
  with assms(2) fs new show ?thesis by (auto simp: frames_complete_def)
qed

lemma mount_effect_init:
  assumes "webgl_available h"
  shows "\<exists>a. mount_scene h 0 = Inr a \<and>
    mount_effect h u init_world =
      \<lparr>apps = [animate_frame u a], raf_queue = [0], onscroll = Some 0, rng = draws a, errors = []\<rparr>"
  using mount_scene_facts [OF assms, of 0]
  by (auto simp: mount_effect_def init_world_def animate_def update_app_def
      request_animation_frame_def)

lemma mount_page_inv:
  assumes "webgl_available h"
  shows "page_inv (mount_effect h u init_world)"
  using mount_effect_init [OF assms, of u] mount_scene_facts [OF assms, of 0]
  by (auto simp: page_inv_def app_wf_animate_frame)

lemma mount_first_frame:
  assumes "webgl_available h" and "controls_keep_depth u"
  shows "\<exists>a. mount_effect h u init_world =
      \<lparr>apps = [a], raf_queue = [0], onscroll = Some 0, rng = 600, errors = []\<rparr>
    \<and> rotation_at a (torus a) = Some torus_spin
    \<and> rotation_at a (moon a) = Some vec3_zero \<and> rotation_at a (jeff_box a) = Some vec3_zero
    \<and> vz (cam_pos (camera a)) = 30
    \<and> length (frames (renderer a)) = 1 \<and> \<not> context_lost (renderer a)"
proof -
  obtain a where m: "mount_scene h 0 = Inr a" and wf: "app_wf a"
    and refs: "torus a = 0" "jeff_box a = 203" "moon a = 204" "draws a = 0 + 600"
    and o: "objs a 0 = Some ((new_object torus_kind)\<lparr>position := vec3 0 0 (-20)\<rparr>)"
       "objs a 203 = Some ((new_object jeff_kind)\<lparr>position := vec3 2 0 (-5)\<rparr>)"
       "objs a 204 = Some ((new_object moon_kind)\<lparr>position := vec3 (-10) 0 30\<rparr>)"
    and c: "vz (cam_pos (camera a)) = 30"
    and r: "frames (renderer a) = []" "\<not> context_lost (renderer a)"
    using mount_scene_facts [OF assms(1), of 0] by fastforce
  have e: "mount_effect h u init_world =
      \<lparr>apps = [animate_frame u a], raf_queue = [0], onscroll = Some 0, rng = 600, errors = []\<rparr>"
    using mount_effect_init [OF assms(1), of u] m refs(4) by auto
  show ?thesis
    using e refs o c r
    by (simp add: rotation_at_def new_object_def frames_render rotate_obj_def
        controls_keep_depthD [OF assms(2)])
qed

lemma reachable_page_inv:
  assumes "page_reachable h u w" and "webgl_available h"
  shows "page_inv w"
  using assms
proof (induction rule: page_reachable.induct)
  case mounted
  then show ?case by (rule mount_page_inv)
next
  case (event w e)
  then show ?case by (simp add: page_inv_step)
qed

lemma mount_frames_complete:
  assumes "webgl_available h"
  shows "frames_complete (hd (apps (mount_effect h u init_world)))"
proof -
  obtain a where m: "mount_scene h 0 = Inr a" and wf: "app_wf a"
    and c: "children (scene a) = [0, 1, 2] @ [3..<203] @ [203, 204]"
    and b: "background (scene a) = Some (Texture ''space.jpg'')"
    and r: "frames (renderer a) = []" "\<not> context_lost (renderer a)"
    using mount_scene_facts [OF assms, of 0] by blast
  have e: "apps (mount_effect h u init_world) = [animate_frame u a]"
    using mount_effect_init [OF assms, of u] m by auto
  have "scene_wf (rotate_obj torus_spin (torus a) (objs a)) (scene a)"
    using wf by (simp add: app_wf_def stage_wf_def rotate_obj_def)
  then show ?thesis
    using e c b r by (simp add: frames_complete_def frames_render snapshot_def)
qed

lemma reachable_frames_complete:
  assumes "page_reachable h u w" and "webgl_available h"
  shows "frames_complete (hd (apps w))"
  using assms
proof (induction rule: page_reachable.induct)
  case mounted
  then show ?case by (rule mount_frames_complete)
next
  case (event w e)
  have inv: "page_inv w" using event.hyps(1) event.prems by (rule reachable_page_inv)
  then have "app_wf (hd (apps w))" by (simp add: page_inv_def)
  with event show ?case by (simp add: step_page [OF inv] frames_complete_app_event)
qed

subsection \<open>Properties of the page's event loop\<close>

text \<open>
  C1: in every state of a page view whose effect succeeded, whatever interleaving of
  refreshes, scroll events and context events has happened, there is exactly one effect
  run, it is well-formed, exactly one \<open>animate\<close> callback is pending, and the scroll
  slot holds that run's \<open>moveCamera\<close>: one active binding of each kind.
\<close>

theorem page_single_binding:
  assumes "page_reachable h u w" and "webgl_available h"
  shows "length (apps w) = 1 \<and> app_wf (hd (apps w)) \<and> raf_queue w = [0] \<and> onscroll w = Some 0"
  using reachable_page_inv [OF assms] by (simp add: page_inv_def)

theorem page_single_binding_witness:
  "let w = step sample_host controls_idle (mount_effect sample_host controls_idle init_world) (Scroll (-500))
   in length (apps w) = 1 \<and> app_wf (hd (apps w)) \<and> raf_queue w = [0] \<and> onscroll w = Some 0"
proof -
  have r: "page_reachable sample_host controls_idle
      (step sample_host controls_idle (mount_effect sample_host controls_idle init_world) (Scroll (-500)))"
    by (rule page_reachable.event [OF page_reachable.mounted]) simp
  show ?thesis using page_single_binding [OF r] by (simp add: Let_def)
qed

text \<open>
  C2: the loop never stops: in every state of a page view, the next display refresh
  turns the torus of the run once more and leaves exactly one \<open>animate\<close> callback
  pending again, because \<open>animate\<close> reschedules itself before doing its work.
\<close>

theorem animation_loop_continues:
  assumes "page_reachable h u w" and "webgl_available h"
  shows "raf_queue (step h u w AnimationFrame) = [0]
    \<and> apps (step h u w AnimationFrame) = [animate_frame u (hd (apps w))]"
proof -
  have inv: "page_inv w" using assms by (rule reachable_page_inv)
  then have "step h u w AnimationFrame = w\<lparr>apps := [animate_frame u (hd (apps w))]\<rparr>"
    using step_page [OF inv, of AnimationFrame h u] by simp
  with inv show ?thesis by (simp add: page_inv_def)
qed

theorem animation_loop_continues_witness:
  "raf_queue (step sample_host controls_idle (mount_effect sample_host controls_idle init_world) AnimationFrame) = [0]
   \<and> apps (step sample_host controls_idle (mount_effect sample_host controls_idle init_world) AnimationFrame)
       = [animate_frame controls_idle (hd (apps (mount_effect sample_host controls_idle init_world)))]"
  using animation_loop_continues [OF page_reachable.mounted, of sample_host controls_idle] by simp

text \<open>
  C3: the two drivers interleave without interference. After the effect and any
  interleaving of refreshes and scroll events (no context loss), with orbit controls
  that keep the depth: the torus has turned once per refresh plus once for the call at
  mount, the moon and the box once per scroll event, the camera depth is the one the
  last scroll offset gives (30 if there was none), and the renderer has drawn one frame
  per refresh plus the one at mount.
\<close>

theorem page_run_interleaving:
  assumes "webgl_available h" and "controls_keep_depth u"
    and "Mount \<notin> set es" and "ContextLost \<notin> set es"
  shows "let w = run h u (mount_effect h u init_world) es; a = hd (apps w) in
    page_inv w
    \<and> rotation_at a (torus a) = Some (vec3_scale (Suc (frame_count es)) torus_spin)
    \<and> rotation_at a (moon a) = Some (vec3_scale (length (scroll_offsets es)) moon_spin)
    \<and> rotation_at a (jeff_box a) = Some (vec3_scale (length (scroll_offsets es)) jeff_spin)
    \<and> vz (cam_pos (camera a)) =
        (if scroll_offsets es = [] then 30 else scroll_camera_z (last (scroll_offsets es)))
    \<and> length (frames (renderer a)) = Suc (frame_count es)"
proof -
  obtain a0 where m: "mount_effect h u init_world =
      \<lparr>apps = [a0], raf_queue = [0], onscroll = Some 0, rng = 600, errors = []\<rparr>"
    and t: "rotation_at a0 (torus a0) = Some torus_spin"
    and mj: "rotation_at a0 (moon a0) = Some vec3_zero" "rotation_at a0 (jeff_box a0) = Some vec3_zero"
    and z: "vz (cam_pos (camera a0)) = 30"
    and f: "length (frames (renderer a0)) = 1" "\<not> context_lost (renderer a0)"
    using mount_first_frame [OF assms(1,2)] by blast
  have inv0: "page_inv (mount_effect h u init_world)" using assms(1) by (rule mount_page_inv)
  then have wf0: "app_wf a0" by (simp add: m page_inv_def)
  have run: "run h u (mount_effect h u init_world) es =
      (mount_effect h u init_world)\<lparr>apps := [fold (app_event u) es a0]\<rparr>"
    using run_page [OF inv0 assms(3)] by (simp add: m)
  have inv: "page_inv (run h u (mount_effect h u init_world) es)"
    using inv0 assms(3)
    by (simp add: run_page page_inv_def m app_wf_app_event fold_app_event_wf)
  show ?thesis
    using inv run fold_app_event_rotation [OF wf0, of u es]
      fold_app_event_depth [OF assms(2), of es a0] fold_app_event_frames [OF assms(4) f(2), of u]
      t mj z f(1)
    by (simp add: Let_def vec3_scale_Suc_left add.commute)
qed

theorem page_run_interleaving_witness:
  "let w = run sample_host controls_idle (mount_effect sample_host controls_idle init_world)
             [AnimationFrame, Scroll (-100), AnimationFrame, Scroll (-500)];
       a = hd (apps w) in
    page_inv w
    \<and> rotation_at a (torus a) = Some (vec3_scale (Suc 2) torus_spin)
    \<and> rotation_at a (moon a) = Some (vec3_scale 2 moon_spin)
    \<and> rotation_at a (jeff_box a) = Some (vec3_scale 2 jeff_spin)
    \<and> vz (cam_pos (camera a)) = scroll_camera_z (-500)
    \<and> length (frames (renderer a)) = Suc 2"
  using page_run_interleaving [of sample_host controls_idle
      "[AnimationFrame, Scroll (-100), AnimationFrame, Scroll (-500)]"]
  by (simp add: frame_count_def numeral_2_eq_2 numeral_3_eq_3)

text \<open>
  C13: the effect returns no cleanup, so when it runs a second time (React re-running
  the effect) the first run's animation loop keeps going: two \<open>animate\<close>
  callbacks are pending, every refresh animates and renders both runs, and the scroll
  slot now holds only the second run's handler, so scroll events no longer reach the
  first run.
\<close>

theorem remount_keeps_first_loop:
  assumes "webgl_available h"
  shows "let w = mount_effect h u (mount_effect h u init_world) in
    length (apps w) = 2 \<and> raf_queue w = [0, 1] \<and> onscroll w = Some 1
    \<and> apps (step h u w AnimationFrame) = map (animate_frame u) (apps w)
    \<and> raf_queue (step h u w AnimationFrame) = [0, 1]
    \<and> apps (step h u w (Scroll t)) ! 0 = apps w ! 0"
proof -
  obtain a0 where m0: "mount_effect h u init_world =
      \<lparr>apps = [a0], raf_queue = [0], onscroll = Some 0, rng = 600, errors = []\<rparr>"
    using mount_first_frame [OF assms controls_idle_keeps_depth]
      mount_effect_init [OF assms, of u] mount_scene_facts [OF assms, of 0] by fastforce
  obtain b where m1: "mount_scene h 600 = Inr b"
    using mount_scene_facts [OF assms, of 600] by blast
  have w: "mount_effect h u (mount_effect h u init_world) =
      \<lparr>apps = [a0, animate_frame u b], raf_queue = [0, 1], onscroll = Some 1, rng = draws b,
       errors = []\<rparr>"
    unfolding m0 by (simp add: mount_effect_def m1 animate_def update_app_def request_animation_frame_def)
  show ?thesis
    by (simp add: w run_animation_frame_def animate_def update_app_def
        request_animation_frame_def dispatch_scroll_def Let_def)
qed

theorem remount_keeps_first_loop_witness:
  "let w = mount_effect sample_host controls_idle (mount_effect sample_host controls_idle init_world) in
    length (apps w) = 2 \<and> raf_queue w = [0, 1] \<and> onscroll w = Some 1
    \<and> apps (step sample_host controls_idle w AnimationFrame) = map (animate_frame controls_idle) (apps w)
    \<and> raf_queue (step sample_host controls_idle w AnimationFrame) = [0, 1]
    \<and> apps (step sample_host controls_idle w (Scroll (-500))) ! 0 = apps w ! 0"
  by (rule remount_keeps_first_loop) simp

text \<open>
  C14: a lost WebGL context is swallowed: the next refresh still turns the torus and
  reschedules \<open>animate\<close>, draws no frame and reports nothing to the host; once the
  context is restored, the following refresh draws again.
\<close>

theorem context_loss_swallowed:
  assumes "page_reachable h u w" and "webgl_available h"
  shows "let w1 = step h u (step h u w ContextLost) AnimationFrame;
             w2 = step h u (step h u w1 ContextRestored) AnimationFrame;
             a = hd (apps w) in
    raf_queue w1 = [0] \<and> errors w1 = errors w
    \<and> frames (renderer (hd (apps w1))) = frames (renderer a)
    \<and> rotation_at (hd (apps w1)) (torus a) =
        map_option (\<lambda>r. vec3_add r torus_spin) (rotation_at a (torus a))
    \<and> length (frames (renderer (hd (apps w2)))) = Suc (length (frames (renderer a)))"
proof -
  have inv: "page_inv w" using assms by (rule reachable_page_inv)
  have run: "run h u w [ContextLost, AnimationFrame] =
      w\<lparr>apps := [fold (app_event u) [ContextLost, AnimationFrame] (hd (apps w))]\<rparr>"
    and run2: "run h u w [ContextLost, AnimationFrame, ContextRestored, AnimationFrame] =
      w\<lparr>apps := [fold (app_event u) [ContextLost, AnimationFrame, ContextRestored, AnimationFrame]
                     (hd (apps w))]\<rparr>"
    using run_page [OF inv] by simp_all
  have wf: "app_wf (hd (apps w))" using inv by (simp add: page_inv_def)
  show ?thesis
    using run run2 inv app_wf_refs [OF wf]
    by (simp add: run_def Let_def page_inv_def rotation_at_def option.map_comp comp_def
        frames_render lose_context_def restore_context_def)
qed

theorem context_loss_swallowed_witness:
  "let w = mount_effect sample_host controls_idle init_world;
       w1 = step sample_host controls_idle (step sample_host controls_idle w ContextLost) AnimationFrame;
       w2 = step sample_host controls_idle (step sample_host controls_idle w1 ContextRestored) AnimationFrame;
       a = hd (apps w) in
    raf_queue w1 = [0] \<and> errors w1 = errors w
    \<and> frames (renderer (hd (apps w1))) = frames (renderer a)
    \<and> rotation_at (hd (apps w1)) (torus a) =
        map_option (\<lambda>r. vec3_add r torus_spin) (rotation_at a (torus a))
    \<and> length (frames (renderer (hd (apps w2)))) = Suc (length (frames (renderer a)))"
  using context_loss_swallowed [OF page_reachable.mounted, of sample_host controls_idle]
  by simp

text \<open>
  C5: the render output is append-only and complete: no event rewrites a frame already
  drawn, and every frame of a page view shows all 205 objects of the scene on the space
  background, whatever interleaving of events came before.
\<close>

theorem frames_append_only_complete:
  assumes "page_reachable h u w" and "webgl_available h" and "e \<noteq> Mount"
  shows "(\<exists>fs. frames (renderer (hd (apps (step h u w e)))) = frames (renderer (hd (apps w))) @ fs)
    \<and> (\<forall>f\<in>set (frames (renderer (hd (apps (step h u w e))))).
          length (fr_objects f) = 205 \<and> fr_background f = Some (Texture ''space.jpg''))"
proof -
  have inv: "page_inv w" using assms(1,2) by (rule reachable_page_inv)
  have r: "page_reachable h u (step h u w e)" using assms(1,3) by (rule page_reachable.event)
  have "frames_complete (hd (apps (step h u w e)))" using r assms(2) by (rule reachable_frames_complete)
  moreover obtain fs where
    "frames (renderer (app_event u e (hd (apps w)))) = frames (renderer (hd (apps w))) @ fs"
    using app_event_frames [of u e "hd (apps w)"] by blast
  ultimately show ?thesis
    by (auto simp: step_page [OF inv assms(3)] frames_complete_def)
qed

theorem frames_append_only_complete_witness:
  "let w = mount_effect sample_host controls_idle init_world;
       w' = step sample_host controls_idle w AnimationFrame in
    (\<exists>fs. frames (renderer (hd (apps w'))) = frames (renderer (hd (apps w))) @ fs)
    \<and> (\<forall>f\<in>set (frames (renderer (hd (apps w')))).
          length (fr_objects f) = 205 \<and> fr_background f = Some (Texture ''space.jpg''))"
  using frames_append_only_complete [OF page_reachable.mounted, of sample_host AnimationFrame controls_idle]
  by (simp add: Let_def)

lemma app_event_idle_camera:
  "camera (app_event controls_idle e a) =
     (case e of Scroll t \<Rightarrow> set_z (scroll_camera_z t) (camera a) | _ \<Rightarrow> camera a)"
  by (cases e) (simp_all add: controls_idle_def)

text \<open>
  C6: with the orbit controls idle (the canvas lets no pointer event through), the
  scroll handler is the only writer of the camera and writes only \<open>position.z\<close>: in
  every state of a page view the camera is the one the effect constructed, with field of
  view 75, the window's aspect, clip planes 0.1 and 1000, at x = y = 0, and some depth.
\<close>

theorem camera_only_depth_changes:
  assumes "page_reachable h controls_idle w" and "webgl_available h"
  shows "\<exists>z. camera (hd (apps w)) =
    set_z z (perspective_camera 75 (of_nat (inner_width h) / of_nat (inner_height h)) 0.1 1000)"
  using assms
proof (induction rule: page_reachable.induct)
  case mounted
  obtain a where m: "mount_scene h 0 = Inr a"
    and c: "camera a = set_z 30 (perspective_camera 75
                  (of_nat (inner_width h) / of_nat (inner_height h)) 0.1 1000)"
    using mount_scene_facts [OF mounted, of 0] by blast
  have "apps (mount_effect h controls_idle init_world) = [animate_frame controls_idle a]"
    using mount_effect_init [OF mounted, of controls_idle] m by auto
  with c show ?case by (auto simp: controls_idle_def)
next
  case (event w e)
  have inv: "page_inv w" using event.hyps(1) event.prems by (rule reachable_page_inv)
  from event.IH [OF event.prems] obtain z where
    z: "camera (hd (apps w)) = set_z z (perspective_camera 75
          (of_nat (inner_width h) / of_nat (inner_height h)) 0.1 1000)" ..
  have st: "step h controls_idle w e = w\<lparr>apps := [app_event controls_idle e (hd (apps w))]\<rparr>"
    using inv event.hyps(2) by (rule step_page)
  show ?case
    unfolding st using z by (cases e) (auto simp: app_event_idle_camera controls_idle_def)
qed

theorem camera_only_depth_changes_witness:
  "\<exists>z. camera (hd (apps (step sample_host controls_idle
        (mount_effect sample_host controls_idle init_world) (Scroll (-500))))) =
    set_z z (perspective_camera 75 (of_nat 800 / of_nat 600) 0.1 1000)"
proof -
  have "page_reachable sample_host controls_idle
      (step sample_host controls_idle (mount_effect sample_host controls_idle init_world) (Scroll (-500)))"
    by (rule page_reachable.event [OF page_reachable.mounted]) simp
  from camera_only_depth_changes [OF this] show ?thesis by simp
qed

subsection \<open>The store's typing\<close>

lemma animate_queue [simp]: "raf_queue (animate u i w) = raf_queue w @ [i]"
  by (simp add: animate_def update_app_def request_animation_frame_def)

lemma obj_shape_rotate [simp]: "obj_shape (st\<lparr>objs := rotate_obj d i (objs st)\<rparr>) = obj_shape st"
  by (rule ext) (simp add: obj_shape_def rotate_obj_def update_obj_def option.map_comp comp_def)

lemma obj_shape_app_event [simp]: "obj_shape (app_event u e a) = obj_shape a"
proof -
  have "obj_shape (animate_frame u a) = obj_shape a" "obj_shape (move_camera t a) = obj_shape a" for t
    by (simp_all add: obj_shape_def fun_eq_iff rotate_obj_def update_obj_def option.map_comp comp_def)
  then show ?thesis by (cases e) (simp_all add: obj_shape_def fun_eq_iff)
qed

lemma reachable_store_shape:
  assumes "page_reachable h u w" and "webgl_available h" and "mount_scene h 0 = Inr a0"
  shows "obj_shape (hd (apps w)) = obj_shape a0 \<and> scene (hd (apps w)) = scene a0"
  using assms(1)
proof (induction rule: page_reachable.induct)
  case mounted
  have "apps (mount_effect h u init_world) = [animate_frame u a0]"
    using mount_effect_init [OF assms(2), of u] assms(3) by auto
  then show ?case by (simp add: obj_shape_def fun_eq_iff rotate_obj_def update_obj_def option.map_comp comp_def)
next
  case (event w e)
  have inv: "page_inv w" using event.hyps(1) assms(2) by (rule reachable_page_inv)
  have st: "step h u w e = w\<lparr>apps := [app_event u e (hd (apps w))]\<rparr>"
    using inv event.hyps(2) by (rule step_page)
  show ?case unfolding st using event.IH by simp
qed

text \<open>
  C24: the object store keeps its typing: in every state of a page view each reference
  holds an object of the kind (geometry and material) and at the position the effect
  created it with, and the scene keeps its children and background; the handlers write
  rotations and the camera only.
\<close>

theorem store_shape_invariant:
  assumes "page_reachable h u w" and "webgl_available h" and "mount_scene h 0 = Inr a0"
  shows "obj_shape (hd (apps w)) = obj_shape a0 \<and> scene (hd (apps w)) = scene a0"
  using assms by (rule reachable_store_shape)

theorem store_shape_invariant_witness:
  "\<exists>a0. mount_scene sample_host 0 = Inr a0
    \<and> obj_shape (hd (apps (step sample_host controls_idle
          (mount_effect sample_host controls_idle init_world) (Scroll (-500))))) = obj_shape a0
    \<and> scene (hd (apps (step sample_host controls_idle
          (mount_effect sample_host controls_idle init_world) (Scroll (-500))))) = scene a0"
proof -
  obtain a0 where m: "mount_scene sample_host 0 = Inr a0"
    using mount_scene_facts [of sample_host 0] by auto
  have r: "page_reachable sample_host controls_idle
      (step sample_host controls_idle (mount_effect sample_host controls_idle init_world) (Scroll (-500)))"
    by (rule page_reachable.event [OF page_reachable.mounted]) simp
  show ?thesis using m store_shape_invariant [OF r _ m] by auto
qed

subsection \<open>A failed construction\<close>

lemma mount_effect_error:
  "\<not> webgl_available h \<Longrightarrow> mount_effect h u init_world =
     \<lparr>apps = [], raf_queue = [], onscroll = None, rng = 0, errors = [ConstructionError]\<rparr>"
  by (simp add: mount_effect_def mount_scene_def init_world_def)

lemma step_no_app:
  "e \<noteq> Mount \<Longrightarrow>
   step h u \<lparr>apps = [], raf_queue = [], onscroll = None, rng = r, errors = es\<rparr> e =
     \<lparr>apps = [], raf_queue = [], onscroll = None, rng = r, errors = es\<rparr>"
  by (cases e) (simp_all add: run_animation_frame_def dispatch_scroll_def set_context_def)

text \<open>
  C25: a construction error is surfaced and final: without WebGL the effect reports
  \<open>ConstructionError\<close> to the host and installs nothing, so no later refresh, scroll,
  context or resize event runs any code of the program or draws anything.
\<close>

theorem construction_error_final:
  assumes "\<not> webgl_available h" and "Mount \<notin> set es"
  shows "run h u (mount_effect h u init_world) es =
     \<lparr>apps = [], raf_queue = [], onscroll = None, rng = 0, errors = [ConstructionError]\<rparr>"
proof -
  have "run h u \<lparr>apps = [], raf_queue = [], onscroll = None, rng = 0, errors = [ConstructionError]\<rparr> es =
     \<lparr>apps = [], raf_queue = [], onscroll = None, rng = 0, errors = [ConstructionError]\<rparr>"
    using assms(2)
  proof (induction es)
    case (Cons e es)
    then have "e \<noteq> Mount" by auto
    with Cons show ?case by (simp add: run_def step_no_app)
  qed (simp add: run_def)
  then show ?thesis by (simp add: mount_effect_error [OF assms(1)])
qed

theorem construction_error_final_witness:
  "run \<lparr>inner_width = 800, inner_height = 600, device_pixel_ratio = 1,
        webgl_available = False, math_random = \<lambda>_. 0\<rparr> controls_idle
     (mount_effect \<lparr>inner_width = 800, inner_height = 600, device_pixel_ratio = 1,
        webgl_available = False, math_random = \<lambda>_. 0\<rparr> controls_idle init_world)
     [AnimationFrame, Scroll (-500), ContextLost, AnimationFrame, Resize 1024 768] =
   \<lparr>apps = [], raf_queue = [], onscroll = None, rng = 0, errors = [ConstructionError]\<rparr>"
  by (rule construction_error_final) simp_all

end
