(* ===== verification/Refinement.thy ===== *)
theory Refinement
  imports EventLoop
begin

text \<open>
  The contract the specification states for the scene-update loop (sections 4.3, 4.4
  and 8), as an abstract machine: a loop phase (Running or Stopped, Running from
  construction on), the number of ticks, the number of scroll events and the camera
  depth, with the operations Tick, ScrollTo and Stop. \<open>refines\<close> relates a page of
  the browser model to an abstract state: the torus has turned once per tick, the moon
  and the box once per scroll event, and the camera is at the abstract depth. The
  simulation lemma shows that every browser event is matched by the abstract
  operations \<open>abs_event\<close> names (a refresh is a Tick, a scroll event a ScrollTo, a
  context event nothing); the effect itself is matched by construction followed by one
  Tick, and no browser event is ever matched by Stop.
\<close>

datatype loop_phase = Running | Stopped

record spec_state =
  phase :: loop_phase
  ticks :: nat
  scroll_events :: nat
  depth :: jsnum

datatype spec_op = Tick | ScrollTo jsnum | Stop

definition spec_init :: spec_state where
  "spec_init = \<lparr>phase = Running, ticks = 0, scroll_events = 0, depth = 30\<rparr>"

fun spec_step :: "spec_state \<Rightarrow> spec_op \<Rightarrow> spec_state" where
  "spec_step s Tick = (if phase s = Running then s\<lparr>ticks := Suc (ticks s)\<rparr> else s)"
| "spec_step s (ScrollTo t) =
     s\<lparr>scroll_events := Suc (scroll_events s), depth := 30 + t * -0.01\<rparr>"
| "spec_step s Stop = s\<lparr>phase := Stopped\<rparr>"

fun abs_event :: "event \<Rightarrow> spec_op list" where
  "abs_event AnimationFrame = [Tick]"
| "abs_event (Scroll t) = [ScrollTo t]"
| "abs_event ContextLost = []"
| "abs_event ContextRestored = []"
| "abs_event Mount = []"
| "abs_event (Resize wd ht) = []"

definition refines :: "world \<Rightarrow> spec_state \<Rightarrow> bool" where
  "refines w s \<longleftrightarrow> page_inv w \<and> phase s = Running
     \<and> rotation_at (hd (apps w)) (torus (hd (apps w))) = Some (vec3_scale (ticks s) torus_spin)
     \<and> rotation_at (hd (apps w)) (moon (hd (apps w))) = Some (vec3_scale (scroll_events s) moon_spin)
     \<and> rotation_at (hd (apps w)) (jeff_box (hd (apps w))) =
         Some (vec3_scale (scroll_events s) jeff_spin)
     \<and> vz (cam_pos (camera (hd (apps w)))) = depth s"

lemma refines_mount:
  assumes "webgl_available h" and "controls_keep_depth u"
  shows "refines (mount_effect h u init_world) (spec_step spec_init Tick)"
proof -
  obtain a where m: "mount_effect h u init_world =
      \<lparr>apps = [a], raf_queue = [0], onscroll = Some 0, rng = 600, errors = []\<rparr>"
    and r: "rotation_at a (torus a) = Some torus_spin"
      "rotation_at a (moon a) = Some vec3_zero" "rotation_at a (jeff_box a) = Some vec3_zero"
    and z: "vz (cam_pos (camera a)) = 30"
    using mount_first_frame [OF assms] by blast
  have "page_inv (mount_effect h u init_world)" using assms(1) by (rule mount_page_inv)
  with m r z show ?thesis
    by (simp add: refines_def spec_init_def vec3_scale_Suc)
qed

lemma refines_step:
  assumes "refines w s" and "controls_keep_depth u" and "e \<noteq> Mount"
  shows "refines (step h u w e) (fold (\<lambda>op s. spec_step s op) (abs_event e) s)"
proof -
  have inv: "page_inv w" using assms(1) by (simp add: refines_def)
  let ?a = "hd (apps w)"
  have wf: "app_wf ?a" using inv by (simp add: page_inv_def)
  have refs: "torus ?a \<noteq> moon ?a" "torus ?a \<noteq> jeff_box ?a" "moon ?a \<noteq> jeff_box ?a"
    using app_wf_refs [OF wf] by simp_all
  have st: "step h u w e = w\<lparr>apps := [app_event u e ?a]\<rparr>"
    using inv assms(3) by (rule step_page)
  have inv': "page_inv (w\<lparr>apps := [app_event u e ?a]\<rparr>)"
    using page_inv_step [OF inv assms(3), of h u] by (simp only: st)
  show ?thesis
    unfolding st using assms(1,3) inv' refs
    by (cases e) (auto simp: refines_def rotation_at_def option.map_comp comp_def
        vec3_scale_Suc controls_keep_depthD [OF assms(2)] scroll_camera_z_def)
qed

lemma refines_run:
  "refines w s \<Longrightarrow> controls_keep_depth u \<Longrightarrow> Mount \<notin> set es \<Longrightarrow>
   refines (run h u w es) (fold (\<lambda>op s. spec_step s op) (concat (map abs_event es)) s)"
proof (induction es arbitrary: w s)
  case Nil
  then show ?case by (simp add: run_def)
next
  case (Cons e es)
  have "e \<noteq> Mount" using Cons.prems(3) by auto
  with Cons.prems(1,2) have "refines (step h u w e) (fold (\<lambda>op s. spec_step s op) (abs_event e) s)"
    by (rule refines_step)
  with Cons.IH Cons.prems(2,3) show ?case by (simp add: run_def)
qed

subsection \<open>The page implements the specified loop\<close>

text \<open>
  C4: the browser model refines the specification's loop machine. After the effect and
  any interleaving of refreshes, scroll events and context events, the page is related
  to the abstract state reached from construction by one Tick (the effect's own call of
  \<open>animate()\<close>) followed by the abstract image of the events: a Tick per refresh, a
  ScrollTo per scroll event. The abstract loop is still Running, since no event of the
  page is matched by Stop.
\<close>

theorem page_refines_spec:
  assumes "webgl_available h" and "controls_keep_depth u" and "Mount \<notin> set es"
  shows "refines (run h u (mount_effect h u init_world) es)
           (fold (\<lambda>op s. spec_step s op) (concat (map abs_event es)) (spec_step spec_init Tick))"
  using refines_run [OF refines_mount [OF assms(1,2)] assms(2,3)] .

theorem page_refines_spec_witness:
  "refines (run sample_host controls_idle (mount_effect sample_host controls_idle init_world)
             [AnimationFrame, Scroll (-500), ContextLost, AnimationFrame])
           (fold (\<lambda>op s. spec_step s op)
             (concat (map abs_event [AnimationFrame, Scroll (-500), ContextLost, AnimationFrame]))
             (spec_step spec_init Tick))"
  by (rule page_refines_spec) simp_all

end
