(* ===== verification/RingsVariant.thy ===== *)
theory RingsVariant
  imports App
begin

text \<open>
  The multiple-rings variant of the page, kept commented out at the end of App.jsx
  (lines 143--218). It builds a scene of four tori from a configuration table
  (\<open>ringsConfig\<close>), each ring carrying its spin speed in \<open>userData.speed\<close>, adds an
  ambient and a point light, and animates every ring by its own speed on each frame.
  There is no scroll handler, no orbit controls, no star field and no texture.
  The state \<open>rings_app\<close> extends the construction stage with the camera, the renderer,
  the \<open>rings\<close> array of the closure and \<open>userData.speed\<close> of each object as a
  store from references to speeds.
\<close>

record ring_cfg =
  cfg_radius :: jsnum
  cfg_tube :: jsnum
  cfg_color :: nat
  cfg_speed :: jsnum

definition rings_config :: "ring_cfg list" where
  "rings_config =
     [\<lparr>cfg_radius = 10, cfg_tube = 3, cfg_color = 0xff6347, cfg_speed = 0.01\<rparr>,
      \<lparr>cfg_radius = 14, cfg_tube = 2.5, cfg_color = 0x00ffff, cfg_speed = 0.008\<rparr>,
      \<lparr>cfg_radius = 18, cfg_tube = 2, cfg_color = 0x00ff00, cfg_speed = 0.006\<rparr>,
      \<lparr>cfg_radius = 22, cfg_tube = 1.8, cfg_color = 0xffff00, cfg_speed = 0.004\<rparr>]"

record rings_app = stage +
  rings_camera :: camera
  rings_renderer :: renderer
  rings :: "oid list"
  user_speed :: "oid \<Rightarrow> jsnum option"

definition ring_kind :: "ring_cfg \<Rightarrow> obj_kind" where
  "ring_kind cfg = Mesh (TorusGeometry (cfg_radius cfg) (cfg_tube cfg) 16 100)
     (mesh_standard_material\<lparr>color := cfg_color cfg\<rparr>)"

text \<open>
  The body of \<open>ringsConfig.forEach\<close>: a new mesh, its \<open>userData.speed\<close>,
  \<open>scene.add(ring)\<close>, \<open>rings.push(ring)\<close>.
\<close>

definition add_ring :: "ring_cfg \<Rightarrow> 'a rings_app_scheme \<Rightarrow> 'a rings_app_scheme" where
  "add_ring cfg a =
     (let (i, a1) = alloc (new_object (ring_kind cfg)) a;
          a2 = a1\<lparr>user_speed := (user_speed a1)(i \<mapsto> cfg_speed cfg)\<rparr>;
          a3 = add_to_scene i a2
      in a3\<lparr>rings := rings a3 @ [i]\<rparr>)"

text \<open>The effect body of the variant (lines 152--196).\<close>

definition mount_rings :: "host \<Rightarrow> error + rings_app" where
  "mount_rings h =
     (let cam = set_z 40 (perspective_camera 75
                  (of_nat (inner_width h) / of_nat (inner_height h)) 0.1 1000)
      in if \<not> webgl_available h then Inl ConstructionError
      else
        (let r = set_size (inner_width h) (inner_height h)
                   (set_pixel_ratio (device_pixel_ratio h) webgl_renderer);
             a0 = \<lparr>objs = Map.empty, next_oid = 0, scene = empty_scene, draws = 0,
                   rings_camera = cam, rings_renderer = r, rings = [], user_speed = Map.empty\<rparr>;
             a1 = fold add_ring rings_config a0;
             a2 = snd (add_object (AmbientLight 0xffffff 0.6) vec3_zero a1);
             a3 = snd (add_object (PointLight 0xffffff 1) (vec3 15 15 15) a2)
         in Inr a3))"

text \<open>\<open>ring.rotation.x += speed; ring.rotation.y += speed * 0.6\<close>.\<close>

definition ring_spin :: "jsnum \<Rightarrow> vec3" where
  "ring_spin s = vec3 s (s * 0.6) 0"

text \<open>
  One ring of the \<open>rings.forEach\<close> of \<open>animate\<close>. A ring without a speed would
  turn by \<open>NaN\<close> in JavaScript; every ring has one (\<open>rings_wf\<close>), so that branch is
  left as the identity.
\<close>

definition spin_ring :: "oid \<Rightarrow> 'a rings_app_scheme \<Rightarrow> 'a rings_app_scheme" where
  "spin_ring i a =
     (case user_speed a i of
        None \<Rightarrow> a
      | Some s \<Rightarrow> a\<lparr>objs := rotate_obj (ring_spin s) i (objs a)\<rparr>)"

text \<open>The frame body of the variant's \<open>animate\<close> after \<open>requestAnimationFrame\<close>.\<close>

definition rings_animate_frame :: "'a rings_app_scheme \<Rightarrow> 'a rings_app_scheme" where
  "rings_animate_frame a =
     (let a1 = fold spin_ring (rings a) a
      in a1\<lparr>rings_renderer := render (objs a1) (scene a1) (rings_camera a1) (rings_renderer a1)\<rparr>)"

definition rings_wf :: "'a rings_app_scheme \<Rightarrow> bool" where
  "rings_wf a \<longleftrightarrow> stage_wf a \<and> distinct (rings a)
     \<and> list_all (\<lambda>i. i \<in> set (children (scene a)) \<and> user_speed a i \<noteq> None) (rings a)"

subsection \<open>The variant's construction and frame\<close>

lemma add_ring_eq:
  assumes "stage_wf a"
  shows "add_ring cfg a =
     a\<lparr>objs := (objs a)(next_oid a \<mapsto> new_object (ring_kind cfg)), next_oid := Suc (next_oid a),
       scene := (scene a)\<lparr>children := children (scene a) @ [next_oid a]\<rparr>,
       rings := rings a @ [next_oid a], user_speed := (user_speed a)(next_oid a \<mapsto> cfg_speed cfg)\<rparr>"
  using stage_wf_fresh [OF assms]
  by (simp add: add_ring_def alloc_def add_to_scene_def scene_add_def)

lemma stage_wf_rings_fields [simp]:
  "stage_wf (a\<lparr>rings := x, user_speed := y\<rparr>) = stage_wf a"
  "stage_wf (a\<lparr>rings_renderer := r\<rparr>) = stage_wf a"
  by (simp_all add: stage_wf_def)

lemma rings_wf_add_ring [wf_intros]: "rings_wf a \<Longrightarrow> rings_wf (add_ring cfg a)"
proof -
  assume wf: "rings_wf a"
  then have st: "stage_wf a" by (simp add: rings_wf_def)
  have "next_oid a \<notin> set (rings a)"
    using wf stage_wf_fresh [OF st] by (auto simp: rings_wf_def list_all_iff)
  with wf st show ?thesis
    by (auto simp: add_ring_eq rings_wf_def list_all_iff)
qed

lemma spin_ring_sel [simp]:
  "rings (spin_ring i a) = rings a" "user_speed (spin_ring i a) = user_speed a"
  "scene (spin_ring i a) = scene a" "next_oid (spin_ring i a) = next_oid a"
  "rings_camera (spin_ring i a) = rings_camera a" "rings_renderer (spin_ring i a) = rings_renderer a"
  by (simp_all add: spin_ring_def split: option.split)

lemma rotation_at_spin_ring:
  "user_speed a i = Some s \<Longrightarrow>
   rotation_at (spin_ring i a) j =
     (if j = i then map_option (\<lambda>r. vec3_add r (ring_spin s)) (rotation_at a j) else rotation_at a j)"
  by (simp add: spin_ring_def rotation_at_def)

lemma stage_wf_spin_ring [simp]: "stage_wf (spin_ring i a) = stage_wf a"
  by (simp add: spin_ring_def stage_wf_def rotate_obj_def split: option.split)

lemma fold_spin_ring_sel [simp]:
  "rings (fold spin_ring is a) = rings a" "user_speed (fold spin_ring is a) = user_speed a"
  "scene (fold spin_ring is a) = scene a" "rings_camera (fold spin_ring is a) = rings_camera a"
  "rings_renderer (fold spin_ring is a) = rings_renderer a"
  "stage_wf (fold spin_ring is a) = stage_wf a"
  by (induction "is" arbitrary: a) simp_all

lemma fold_spin_ring_rotation:
  "distinct is \<Longrightarrow> list_all (\<lambda>i. user_speed a i \<noteq> None) is \<Longrightarrow>
   rotation_at (fold spin_ring is a) j =
     (if j \<in> set is then map_option (\<lambda>r. vec3_add r (ring_spin (the (user_speed a j)))) (rotation_at a j)
      else rotation_at a j)"
proof (induction "is" arbitrary: a)
  case (Cons i "is")
  obtain s where s: "user_speed a i = Some s" using Cons.prems by auto
  have "rotation_at (fold spin_ring is (spin_ring i a)) j =
    (if j \<in> set is then map_option (\<lambda>r. vec3_add r (ring_spin (the (user_speed a j))))
       (rotation_at (spin_ring i a) j) else rotation_at (spin_ring i a) j)"
    using Cons.IH [of "spin_ring i a"] Cons.prems by simp
  then show ?case using Cons.prems s by (auto simp: rotation_at_spin_ring)
qed simp

lemma rings_frame_sel [simp]:
  "rings (rings_animate_frame a) = rings a" "user_speed (rings_animate_frame a) = user_speed a"
  "scene (rings_animate_frame a) = scene a" "rings_camera (rings_animate_frame a) = rings_camera a"
  "stage_wf (rings_animate_frame a) = stage_wf a"
  by (simp_all add: rings_animate_frame_def Let_def)

lemma rings_frame_renderer [simp]:
  "rings_renderer (rings_animate_frame a) =
     render (objs (fold spin_ring (rings a) a)) (scene a) (rings_camera a) (rings_renderer a)"
  by (simp add: rings_animate_frame_def Let_def)

lemma rings_wf_frame [wf_intros]: "rings_wf a \<Longrightarrow> rings_wf (rings_animate_frame a)"
  by (simp add: rings_wf_def)

lemma rings_frame_rotation:
  "rings_wf a \<Longrightarrow> rotation_at (rings_animate_frame a) j =
     (if j \<in> set (rings a) then map_option (\<lambda>r. vec3_add r (ring_spin (the (user_speed a j)))) (rotation_at a j)
      else rotation_at a j)"
  using fold_spin_ring_rotation [of "rings a" a j]
  by (simp add: rings_wf_def list_all_iff rings_animate_frame_def Let_def rotation_at_def)

lemma rings_frames_iter:
  assumes "rings_wf a"
  shows "rings_wf ((rings_animate_frame ^^ n) a)
    \<and> rings ((rings_animate_frame ^^ n) a) = rings a
    \<and> user_speed ((rings_animate_frame ^^ n) a) = user_speed a
    \<and> scene ((rings_animate_frame ^^ n) a) = scene a
    \<and> (\<forall>j. rotation_at ((rings_animate_frame ^^ n) a) j =
       (if j \<in> set (rings a)
        then map_option (\<lambda>r. vec3_add r (vec3_scale n (ring_spin (the (user_speed a j))))) (rotation_at a j)
        else rotation_at a j))"
proof (induction n)
  case 0
  then show ?case using assms by (simp add: option.map_ident)
next
  case (Suc n)
  then show ?case
    by (simp add: rings_wf_frame rings_frame_rotation option.map_comp comp_def vec3_scale_Suc vec3_add_assoc)
qed

lemma add_ring_counters [simp]:
  "next_oid (add_ring cfg a) = Suc (next_oid a)"
  "rings_camera (add_ring cfg a) = rings_camera a" "rings_renderer (add_ring cfg a) = rings_renderer a"
  "background (scene (add_ring cfg a)) = background (scene a)"
  by (simp_all add: add_ring_def alloc_def add_to_scene_def split: prod.split)

lemma fold_add_ring_sel [simp]:
  "rings_camera (fold add_ring cs a) = rings_camera a"
  "rings_renderer (fold add_ring cs a) = rings_renderer a"
  by (induction cs arbitrary: a) simp_all

lemma fold_add_ring:
  assumes "stage_wf a"
  shows "stage_wf (fold add_ring cs a)
    \<and> next_oid (fold add_ring cs a) = next_oid a + length cs
    \<and> rings (fold add_ring cs a) = rings a @ [next_oid a..<next_oid a + length cs]
    \<and> children (scene (fold add_ring cs a)) = children (scene a) @ [next_oid a..<next_oid a + length cs]
    \<and> (\<forall>j. objs (fold add_ring cs a) j = (if next_oid a \<le> j \<and> j < next_oid a + length cs
          then Some (new_object (ring_kind (cs ! (j - next_oid a)))) else objs a j))
    \<and> (\<forall>j. user_speed (fold add_ring cs a) j = (if next_oid a \<le> j \<and> j < next_oid a + length cs
          then Some (cfg_speed (cs ! (j - next_oid a))) else user_speed a j))"
  using assms
proof (induction cs arbitrary: a)
  case (Cons c cs)
  let ?b = "add_ring c a"
  have wf: "stage_wf ?b"
    using Cons.prems by (simp add: add_ring_eq)
  show ?case
    using Cons.IH [OF wf] Cons.prems
    by (auto simp: add_ring_eq upt_rec nth_Cons' not_less_eq_eq Suc_diff_le)
qed auto

lemma rings_wf_fold_add_ring [wf_intros]: "rings_wf a \<Longrightarrow> rings_wf (fold add_ring cs a)"
  by (induction cs arbitrary: a) (simp_all add: rings_wf_add_ring)

lemma add_object_rings_sel [simp]:
  "rings (snd (add_object k p a)) = rings a" "user_speed (snd (add_object k p a)) = user_speed a"
  "rings_camera (snd (add_object k p a)) = rings_camera a"
  "rings_renderer (snd (add_object k p a)) = rings_renderer a"
  by (simp_all add: add_object_def alloc_def add_to_scene_def)

lemma rings_wf_add_object [wf_intros]:
  "rings_wf a \<Longrightarrow> rings_wf (snd (add_object k p a))"
  by (auto simp: rings_wf_def list_all_iff add_object_wf)

lemma rings_frames_render:
  assumes "rings_wf a" and "\<not> context_lost (rings_renderer a)"
  shows "\<not> context_lost (rings_renderer ((rings_animate_frame ^^ n) a))
    \<and> length (frames (rings_renderer ((rings_animate_frame ^^ n) a))) =
          length (frames (rings_renderer a)) + n
    \<and> (\<forall>f\<in>set (frames (rings_renderer ((rings_animate_frame ^^ n) a))).
          f \<in> set (frames (rings_renderer a)) \<or> length (fr_objects f) = length (children (scene a)))"
proof (induction n)
  case (Suc n)
  let ?b = "(rings_animate_frame ^^ n) a"
  have wf: "rings_wf ?b" and sc: "scene ?b = scene a"
    using rings_frames_iter [OF assms(1), of n] by simp_all
  then have "scene_wf (objs (fold spin_ring (rings ?b) ?b)) (scene a)" "scene_wf (objs ?b) (scene a)"
    using fold_spin_ring_sel(6) [of "rings ?b" ?b] by (simp_all add: rings_wf_def stage_wf_def)
  moreover have "(rings_animate_frame ^^ Suc n) a = rings_animate_frame ?b" by simp
  ultimately show ?case using Suc sc
    by (auto simp: rings_animate_frame_def [of ?b] Let_def frames_render snapshot_def render_def
        simp del: funpow.simps)
qed (simp add: assms)

lemma rings_frame_objs: "objs (rings_animate_frame a) = objs (fold spin_ring (rings a) a)"
  by (simp add: rings_animate_frame_def Let_def)

lemma unrotated_fold_spin_ring [simp]: "unrotated (objs (fold spin_ring is a)) = unrotated (objs a)"
  by (induction "is" arbitrary: a) (simp_all add: spin_ring_def split: option.split)

lemma unrotated_frames [simp]: "unrotated (objs ((rings_animate_frame ^^ n) a)) = unrotated (objs a)"
  by (induction n) (simp_all add: rings_frame_objs)

lemma rings_frames_camera [simp]: "rings_camera ((rings_animate_frame ^^ n) a) = rings_camera a"
  by (induction n) simp_all

text \<open>The frames the loop draws, one per call, each of the state after that call's turn.\<close>

lemma rings_frames_list:
  assumes "rings_wf a" and "\<not> context_lost (rings_renderer a)"
  shows "frames (rings_renderer ((rings_animate_frame ^^ n) a)) = frames (rings_renderer a) @
    map (\<lambda>j. snapshot (objs ((rings_animate_frame ^^ Suc j) a)) (scene a) (rings_camera a)) [0..<n]"
proof (induction n)
  case (Suc n)
  let ?b = "(rings_animate_frame ^^ n) a"
  have "scene ?b = scene a" and "rings_wf ?b" using rings_frames_iter [OF assms(1), of n] by simp_all
  moreover have "\<not> context_lost (rings_renderer ?b)" using rings_frames_render [OF assms, of n] by simp
  ultimately show ?case using Suc by (simp add: frames_render rings_frame_objs)
qed simp

lemma mount_rings_facts:
  assumes "webgl_available h"
  shows "\<exists>a. mount_rings h = Inr a \<and> rings_wf a \<and> rings a = [0, 1, 2, 3]
    \<and> children (scene a) = [0, 1, 2, 3, 4, 5]
    \<and> (\<forall>j<4. objs a j = Some (new_object (ring_kind (rings_config ! j)))
             \<and> user_speed a j = Some (cfg_speed (rings_config ! j)))
    \<and> objs a 4 = Some ((new_object (AmbientLight 0xffffff 0.6))\<lparr>position := vec3_zero\<rparr>)
    \<and> objs a 5 = Some ((new_object (PointLight 0xffffff 1))\<lparr>position := vec3 15 15 15\<rparr>)
    \<and> rings_camera a = set_z 40 (perspective_camera 75
                  (of_nat (inner_width h) / of_nat (inner_height h)) 0.1 1000)
    \<and> rings_renderer a = set_size (inner_width h) (inner_height h)
                  (set_pixel_ratio (device_pixel_ratio h) webgl_renderer)
    \<and> frames (rings_renderer a) = [] \<and> \<not> context_lost (rings_renderer a)"
proof -
  define a0 where "a0 = (\<lparr>objs = Map.empty, next_oid = 0, scene = empty_scene, draws = 0,
     rings_camera = set_z 40 (perspective_camera 75
                  (of_nat (inner_width h) / of_nat (inner_height h)) 0.1 1000),
     rings_renderer = set_size (inner_width h) (inner_height h)
                   (set_pixel_ratio (device_pixel_ratio h) webgl_renderer),
     rings = [], user_speed = Map.empty\<rparr> :: rings_app)"
  define b where "b = fold add_ring rings_config a0"
  define c where "c = snd (add_object (AmbientLight 0xffffff 0.6) vec3_zero b)"
  define d where "d = snd (add_object (PointLight 0xffffff 1) (vec3 15 15 15) c)"
  have wf0: "rings_wf a0"
    by (simp add: a0_def rings_wf_def stage_wf_def scene_wf_def empty_scene_def)
  have len: "length rings_config = 4" by (simp add: rings_config_def)
  have fb: "stage_wf b \<and> next_oid b = 4 \<and> rings b = [0, 1, 2, 3]
    \<and> children (scene b) = [0, 1, 2, 3]
    \<and> (\<forall>j. objs b j = (if j < 4 then Some (new_object (ring_kind (rings_config ! j))) else None))
    \<and> (\<forall>j. user_speed b j = (if j < 4 then Some (cfg_speed (rings_config ! j)) else None))"
    using fold_add_ring [of a0 rings_config] wf0 len
    by (simp add: b_def rings_wf_def a0_def empty_scene_def upt_rec)
  have wfd: "rings_wf d"
    using wf0 by (simp add: d_def c_def b_def wf_intros)
  have cb: "stage_wf c" "children (scene c) = [0, 1, 2, 3, 4]" "next_oid c = 5"
    using fb add_object_wf [of b] by (simp_all add: c_def)
  have "mount_rings h = Inr d"
    using assms by (simp add: mount_rings_def Let_def a0_def b_def c_def d_def)
  moreover have "children (scene d) = [0, 1, 2, 3, 4, 5]"
    using cb add_object_wf [of c] by (simp add: d_def)
  moreover have "objs d 4 = Some ((new_object (AmbientLight 0xffffff 0.6))\<lparr>position := vec3_zero\<rparr>)"
    and "objs d 5 = Some ((new_object (PointLight 0xffffff 1))\<lparr>position := vec3 15 15 15\<rparr>)"
    and "\<forall>j<4. objs d j = Some (new_object (ring_kind (rings_config ! j)))
             \<and> user_speed d j = Some (cfg_speed (rings_config ! j))"
    and "rings d = [0, 1, 2, 3]"
    using fb cb by (simp_all add: d_def c_def)
  moreover have "rings_camera d = rings_camera a0" and "rings_renderer d = rings_renderer a0"
    by (simp_all add: d_def c_def b_def)
  ultimately show ?thesis
    using wfd by (simp add: a0_def set_size_def set_pixel_ratio_def webgl_renderer_def)
qed

subsection \<open>Properties of the variant\<close>

text \<open>
  C18: with WebGL, the variant's effect builds one torus per entry of \<open>ringsConfig\<close>,
  in table order, each with the entry's geometry, colour and speed, followed by the
  ambient and the point light; the camera sits at depth 40 and nothing is drawn yet.
\<close>

theorem mount_rings_result:
  assumes "webgl_available h"
  shows "\<exists>a. mount_rings h = Inr a \<and> rings_wf a \<and> rings a = [0, 1, 2, 3]
    \<and> children (scene a) = [0, 1, 2, 3, 4, 5]
    \<and> map (\<lambda>j. map_option kind (objs a j)) (children (scene a)) =
         map (\<lambda>c. Some (ring_kind c)) rings_config
           @ [Some (AmbientLight 0xffffff 0.6), Some (PointLight 0xffffff 1)]
    \<and> map (user_speed a) (rings a) = map (\<lambda>c. Some (cfg_speed c)) rings_config
    \<and> vz (cam_pos (rings_camera a)) = 40 \<and> frames (rings_renderer a) = []"
proof -
  obtain a where a: "mount_rings h = Inr a \<and> rings_wf a \<and> rings a = [0, 1, 2, 3]
    \<and> children (scene a) = [0, 1, 2, 3, 4, 5]
    \<and> (\<forall>j<4. objs a j = Some (new_object (ring_kind (rings_config ! j)))
             \<and> user_speed a j = Some (cfg_speed (rings_config ! j)))
    \<and> objs a 4 = Some ((new_object (AmbientLight 0xffffff 0.6))\<lparr>position := vec3_zero\<rparr>)
    \<and> objs a 5 = Some ((new_object (PointLight 0xffffff 1))\<lparr>position := vec3 15 15 15\<rparr>)
    \<and> rings_camera a = set_z 40 (perspective_camera 75
                  (of_nat (inner_width h) / of_nat (inner_height h)) 0.1 1000)
    \<and> frames (rings_renderer a) = []"
    using mount_rings_facts [OF assms] by blast
  have "\<forall>j<4. map_option kind (objs a j) = Some (ring_kind (rings_config ! j))
               \<and> user_speed a j = Some (cfg_speed (rings_config ! j))"
    using a by (simp add: new_object_def)
  then have "map_option kind (objs a 0) = Some (ring_kind (rings_config ! 0))
    \<and> map_option kind (objs a 1) = Some (ring_kind (rings_config ! 1))
    \<and> map_option kind (objs a 2) = Some (ring_kind (rings_config ! 2))
    \<and> map_option kind (objs a 3) = Some (ring_kind (rings_config ! 3))
    \<and> user_speed a 0 = Some (cfg_speed (rings_config ! 0))
    \<and> user_speed a 1 = Some (cfg_speed (rings_config ! 1))
    \<and> user_speed a 2 = Some (cfg_speed (rings_config ! 2))
    \<and> user_speed a 3 = Some (cfg_speed (rings_config ! 3))"
    by simp
  with a show ?thesis
    by (simp add: rings_config_def new_object_def set_z_def)
qed

theorem mount_rings_result_witness:
  "\<exists>a. mount_rings \<lparr>inner_width = 800, inner_height = 600, device_pixel_ratio = 1,
         webgl_available = True, math_random = \<lambda>_. 0\<rparr> = Inr a \<and> rings_wf a \<and> rings a = [0, 1, 2, 3]
    \<and> children (scene a) = [0, 1, 2, 3, 4, 5]
    \<and> map (\<lambda>j. map_option kind (objs a j)) (children (scene a)) =
         map (\<lambda>c. Some (ring_kind c)) rings_config
           @ [Some (AmbientLight 0xffffff 0.6), Some (PointLight 0xffffff 1)]
    \<and> map (user_speed a) (rings a) = map (\<lambda>c. Some (cfg_speed c)) rings_config
    \<and> vz (cam_pos (rings_camera a)) = 40 \<and> frames (rings_renderer a) = []"
  by (rule mount_rings_result) simp

text \<open>
  The frames after construction: \<open>n\<close> frames turn ring \<open>k\<close> by \<open>n\<close> times its
  speed about x and 0.6 of that about y, and draw \<open>n\<close> frames of all six objects.
\<close>

lemma rings_frames_after_mount:
  assumes "webgl_available h" and "k < 4"
  shows "\<exists>a. mount_rings h = Inr a
    \<and> rotation_at ((rings_animate_frame ^^ n) a) (rings a ! k) =
         Some (vec3 (of_nat n * cfg_speed (rings_config ! k))
                    (of_nat n * (cfg_speed (rings_config ! k) * 0.6)) 0)
    \<and> length (frames (rings_renderer ((rings_animate_frame ^^ n) a))) = n
    \<and> (\<forall>f\<in>set (frames (rings_renderer ((rings_animate_frame ^^ n) a))). length (fr_objects f) = 6)"
proof -
  obtain a where a: "mount_rings h = Inr a \<and> rings_wf a \<and> rings a = [0, 1, 2, 3]
    \<and> children (scene a) = [0, 1, 2, 3, 4, 5]
    \<and> (\<forall>j<4. objs a j = Some (new_object (ring_kind (rings_config ! j)))
             \<and> user_speed a j = Some (cfg_speed (rings_config ! j)))
    \<and> frames (rings_renderer a) = [] \<and> \<not> context_lost (rings_renderer a)"
    using mount_rings_facts [OF assms(1)] by blast
  have k: "rings a ! k = k" "k \<in> set (rings a)"
    using a assms(2) by (auto simp: nth_Cons' numeral_3_eq_3 numeral_2_eq_2 less_Suc_eq)
  have rot: "rotation_at ((rings_animate_frame ^^ n) a) k =
      Some (vec3_add vec3_zero (vec3_scale n (ring_spin (cfg_speed (rings_config ! k)))))"
    using rings_frames_iter [of a n] a assms(2) k
    by (simp add: rotation_at_def new_object_def)
  have "vec3_add vec3_zero (vec3_scale n (ring_spin (cfg_speed (rings_config ! k)))) =
     vec3 (of_nat n * cfg_speed (rings_config ! k)) (of_nat n * (cfg_speed (rings_config ! k) * 0.6)) 0"
    by (rule vec3_eqI) (simp_all add: ring_spin_def vec3_def)
  with rot k a rings_frames_render [of a n] show ?thesis
    by auto
qed

text \<open>What a frame drawn after \<open>n\<close> calls of the loop shows of ring \<open>k\<close>.\<close>

lemma rings_frame_shows_ring:
  assumes "webgl_available h" and "mount_rings h = Inr a0" and "k < 4"
  shows "fr_objects (snapshot (objs ((rings_animate_frame ^^ n) a0)) (scene a0) (rings_camera a0)) ! k =
    (new_object (ring_kind (rings_config ! k)))\<lparr>rotation :=
      vec3 (of_nat n * cfg_speed (rings_config ! k)) (of_nat n * (cfg_speed (rings_config ! k) * 0.6)) 0\<rparr>"
proof -
  let ?b = "(rings_animate_frame ^^ n) a0"
  let ?ob = "visible (objs ?b) (scene a0) ! k"
  have a0: "rings_wf a0" "rings a0 = [0, 1, 2, 3]" "children (scene a0) = [0..<6]"
    "objs a0 k = Some (new_object (ring_kind (rings_config ! k)))"
    using mount_rings_facts [OF assms(1)] assms(2,3) by (auto simp: upt_rec)
  have k: "children (scene a0) ! k = k" "k < length (children (scene a0))"
    using a0(3) assms(3) by simp_all
  have "rings_wf ?b" and "scene ?b = scene a0" using rings_frames_iter [OF a0(1), of n] by simp_all
  then have "scene_wf (objs ?b) (scene a0)" by (simp add: rings_wf_def stage_wf_def)
  then have ob: "objs ?b k = Some ?ob"
    using visible_nth [of "objs ?b" "scene a0" k] k by simp
  have "vec3_add vec3_zero (vec3_scale n (ring_spin (cfg_speed (rings_config ! k)))) =
     vec3 (of_nat n * cfg_speed (rings_config ! k)) (of_nat n * (cfg_speed (rings_config ! k) * 0.6)) 0"
    by (rule vec3_eqI) (simp_all add: ring_spin_def vec3_def)
  moreover have "rotation_at ?b k = (if k \<in> set (rings a0)
      then map_option (\<lambda>r. vec3_add r (vec3_scale n (ring_spin (the (user_speed a0 k))))) (rotation_at a0 k)
      else rotation_at a0 k)"
    using rings_frames_iter [OF a0(1), of n] by blast
  moreover have "k \<in> set (rings a0)" using a0(2) assms(3) by auto
  moreover have "user_speed a0 k = Some (cfg_speed (rings_config ! k))"
    using mount_rings_facts [OF assms(1)] assms(2,3) by auto
  moreover have "rotation_at a0 k = Some vec3_zero" using a0(4) by (simp add: rotation_at_def new_object_def)
  moreover have "rotation_at ?b k = Some (rotation ?ob)" using ob by (simp add: rotation_at_def)
  ultimately have rot: "rotation ?ob =
     vec3 (of_nat n * cfg_speed (rings_config ! k)) (of_nat n * (cfg_speed (rings_config ! k) * 0.6)) 0"
    by simp
  have "map_option (\<lambda>ob. ob\<lparr>rotation := vec3_zero\<rparr>) (objs ?b k) =
      map_option (\<lambda>ob. ob\<lparr>rotation := vec3_zero\<rparr>) (objs a0 k)"
    using fun_cong [OF unrotated_frames [of n a0], of k] unfolding unrotated_def .
  then have "?ob\<lparr>rotation := vec3_zero\<rparr> = new_object (ring_kind (rings_config ! k))"
    using ob a0(4) by (simp add: new_object_def)
  with rot show ?thesis by (cases ?ob) (simp add: snapshot_def new_object_def)
qed

end
