(* ===== verification/RingsLoop.thy ===== *)
theory RingsLoop
  imports RingsVariant EventLoop
begin

text \<open>
  The browser side of the multiple-rings variant (App.jsx lines 151--211): its effect
  builds the scene (RingsVariant), then calls \<open>animate()\<close> once, and \<open>animate\<close>
  requests the next frame before it turns the rings and renders (lines 199--208). The
  variant installs no scroll handler and no orbit controls, so of the browser's events
  only the effect, the display refreshes and the WebGL context events reach it. The world
  mirrors EventLoop's: the state of each effect run, the pending animation-frame
  callbacks by run, and the exceptions reported to the host.
\<close>

record rings_world =
  r_apps :: "rings_app list"
  r_queue :: "nat list"
  r_errors :: "error list"

definition rings_init_world :: rings_world where
  "rings_init_world = \<lparr>r_apps = [], r_queue = [], r_errors = []\<rparr>"

definition rings_update_app :: "nat \<Rightarrow> (rings_app \<Rightarrow> rings_app) \<Rightarrow> rings_world \<Rightarrow> rings_world" where
  "rings_update_app i f w = w\<lparr>r_apps := (r_apps w)[i := f (r_apps w ! i)]\<rparr>"

text \<open>The variant's \<open>animate\<close> of run \<open>i\<close>: \<open>requestAnimationFrame(animate)\<close> first.\<close>

definition rings_animate :: "nat \<Rightarrow> rings_world \<Rightarrow> rings_world" where
  "rings_animate i w = rings_update_app i rings_animate_frame (w\<lparr>r_queue := r_queue w @ [i]\<rparr>)"

text \<open>The variant's effect: build, or report the constructor's throw; then \<open>animate()\<close>.\<close>

definition rings_mount_effect :: "host \<Rightarrow> rings_world \<Rightarrow> rings_world" where
  "rings_mount_effect h w =
     (case mount_rings h of
        Inl e \<Rightarrow> w\<lparr>r_errors := r_errors w @ [e]\<rparr>
      | Inr a \<Rightarrow> rings_animate (length (r_apps w)) (w\<lparr>r_apps := r_apps w @ [a]\<rparr>))"

definition rings_set_context :: "(renderer \<Rightarrow> renderer) \<Rightarrow> rings_world \<Rightarrow> rings_world" where
  "rings_set_context f w = w\<lparr>r_apps := map (\<lambda>a. a\<lparr>rings_renderer := f (rings_renderer a)\<rparr>) (r_apps w)\<rparr>"

fun rings_step :: "host \<Rightarrow> rings_world \<Rightarrow> event \<Rightarrow> rings_world" where
  "rings_step h w Mount = rings_mount_effect h w"
| "rings_step h w AnimationFrame = fold rings_animate (r_queue w) (w\<lparr>r_queue := []\<rparr>)"
| "rings_step h w (Scroll t) = w"
| "rings_step h w ContextLost = rings_set_context lose_context w"
| "rings_step h w ContextRestored = rings_set_context restore_context w"
| "rings_step h w (Resize wd ht) = w"

definition rings_run :: "host \<Rightarrow> rings_world \<Rightarrow> event list \<Rightarrow> rings_world" where
  "rings_run h w es = fold (\<lambda>e w. rings_step h w e) es w"

text \<open>What a non-mount event does to the single run of a view of the variant.\<close>

fun rings_app_event :: "event \<Rightarrow> rings_app \<Rightarrow> rings_app" where
  "rings_app_event AnimationFrame a = rings_animate_frame a"
| "rings_app_event ContextLost a = a\<lparr>rings_renderer := lose_context (rings_renderer a)\<rparr>"
| "rings_app_event ContextRestored a = a\<lparr>rings_renderer := restore_context (rings_renderer a)\<rparr>"
| "rings_app_event e a = a"


subsection \<open>A view of the variant\<close>

lemma rings_step_single:
  assumes "r_apps w = [a]" and "r_queue w = [0]" and "e \<noteq> Mount"
  shows "rings_step h w e = w\<lparr>r_apps := [rings_app_event e a]\<rparr>"
  using assms
  by (cases e) (simp_all add: rings_animate_def rings_update_app_def rings_set_context_def)

lemma rings_run_single:
  assumes "r_apps w = [a]" and "r_queue w = [0]" and "Mount \<notin> set es"
  shows "rings_run h w es = w\<lparr>r_apps := [fold rings_app_event es a]\<rparr>"
  using assms
proof (induction es arbitrary: w a)
  case Nil
  then show ?case by (cases w) (simp add: rings_run_def)
next
  case (Cons e es)
  have e: "e \<noteq> Mount" using Cons.prems(3) by auto
  have st: "rings_step h w e = w\<lparr>r_apps := [rings_app_event e a]\<rparr>"
    using Cons.prems(1,2) e by (rule rings_step_single)
  have "rings_run h (w\<lparr>r_apps := [rings_app_event e a]\<rparr>) es =
      w\<lparr>r_apps := [fold rings_app_event es (rings_app_event e a)]\<rparr>"
    using Cons.IH [of "w\<lparr>r_apps := [rings_app_event e a]\<rparr>" "rings_app_event e a"] Cons.prems by simp
  then show ?case by (simp add: rings_run_def st [symmetric])
qed

lemma restore_context_live: "\<not> context_lost r \<Longrightarrow> restore_context r = r"
  by (cases r) (simp add: restore_context_def)

lemma rings_context_frame [simp]:
  "context_lost (rings_renderer (rings_animate_frame a)) = context_lost (rings_renderer a)"
  by (simp add: rings_animate_frame_def Let_def)

lemma fold_rings_app_event:
  assumes "\<not> context_lost (rings_renderer a)" and "Mount \<notin> set es" and "ContextLost \<notin> set es"
  shows "fold rings_app_event es a = (rings_animate_frame ^^ frame_count es) a"
  using assms
proof (induction es arbitrary: a)
  case (Cons e es)
  then show ?case
    by (cases e) (simp_all add: restore_context_live funpow_Suc_right del: funpow.simps)
qed simp

lemma rings_mount_init:
  assumes "webgl_available h" and "mount_rings h = Inr a"
  shows "rings_mount_effect h rings_init_world =
    \<lparr>r_apps = [rings_animate_frame a], r_queue = [0], r_errors = []\<rparr>"
  using assms by (simp add: rings_mount_effect_def rings_init_world_def rings_animate_def rings_update_app_def)

text \<open>The variant's page after the effect and events without a context loss.\<close>

lemma rings_page_state:
  assumes "webgl_available h" and "Mount \<notin> set es" and "ContextLost \<notin> set es"
  shows "\<exists>a0. mount_rings h = Inr a0 \<and> rings_wf a0 \<and> \<not> context_lost (rings_renderer a0)
    \<and> rings_run h (rings_mount_effect h rings_init_world) es =
      \<lparr>r_apps = [(rings_animate_frame ^^ Suc (frame_count es)) a0], r_queue = [0], r_errors = []\<rparr>"
proof -
  obtain a0 where m: "mount_rings h = Inr a0"
    and c: "\<not> context_lost (rings_renderer a0)" and wf: "rings_wf a0"
    using mount_rings_facts [OF assms(1)] by blast
  have w0: "rings_mount_effect h rings_init_world =
      \<lparr>r_apps = [rings_animate_frame a0], r_queue = [0], r_errors = []\<rparr>"
    using assms(1) m by (rule rings_mount_init)
  have "fold rings_app_event es (rings_animate_frame a0) = (rings_animate_frame ^^ Suc (frame_count es)) a0"
    using fold_rings_app_event [of "rings_animate_frame a0" es] c assms(2,3)
    by (simp add: funpow_Suc_right del: funpow.simps)
  then show ?thesis
    using rings_run_single [of "\<lparr>r_apps = [rings_animate_frame a0], r_queue = [0], r_errors = []\<rparr>"
        "rings_animate_frame a0" es h] assms(2) w0 m c wf
    by auto
qed

text \<open>
  C19: the variant's page runs its loop as written: after the effect and any sequence of
  refreshes, scroll, resize and context-restore events (no context loss), one
  \<open>animate\<close> callback is pending, nothing was reported to the host, and ring
  \<open>k\<close> has turned by its configured speed about x and 0.6 of it about y once per
  refresh plus once for the call at mount; one frame of all six objects was drawn for
  each of those turns.
\<close>

theorem rings_page_spin:
  assumes "webgl_available h" and "k < 4" and "Mount \<notin> set es" and "ContextLost \<notin> set es"
  shows "let w = rings_run h (rings_mount_effect h rings_init_world) es; a = hd (r_apps w);
             n = Suc (frame_count es) in
    r_queue w = [0] \<and> r_errors w = [] \<and> length (r_apps w) = 1
    \<and> rotation_at a (rings a ! k) =
         Some (vec3 (of_nat n * cfg_speed (rings_config ! k)) (of_nat n * (cfg_speed (rings_config ! k) * 0.6)) 0)
    \<and> length (frames (rings_renderer a)) = n
    \<and> (\<forall>f\<in>set (frames (rings_renderer a)). length (fr_objects f) = 6)"
proof -
  let ?n = "Suc (frame_count es)"
  obtain a0 where m: "mount_rings h = Inr a0" and wf: "rings_wf a0"
    and run: "rings_run h (rings_mount_effect h rings_init_world) es =
      \<lparr>r_apps = [(rings_animate_frame ^^ ?n) a0], r_queue = [0], r_errors = []\<rparr>"
    using rings_page_state [OF assms(1,3,4)] by blast
  have "rings ((rings_animate_frame ^^ ?n) a0) = rings a0"
    using rings_frames_iter [OF wf, of ?n] by simp
  then show ?thesis
    using rings_frames_after_mount [OF assms(1,2), of ?n] m by (simp add: run Let_def)
qed

theorem rings_page_spin_witness:
  "let w = rings_run sample_host (rings_mount_effect sample_host rings_init_world)
             [AnimationFrame, Scroll (-500), AnimationFrame]; a = hd (r_apps w);
       n = Suc (frame_count [AnimationFrame, Scroll (-500), AnimationFrame]) in
    r_queue w = [0] \<and> r_errors w = [] \<and> length (r_apps w) = 1
    \<and> rotation_at a (rings a ! 1) =
         Some (vec3 (of_nat n * cfg_speed (rings_config ! 1)) (of_nat n * (cfg_speed (rings_config ! 1) * 0.6)) 0)
    \<and> length (frames (rings_renderer a)) = n
    \<and> (\<forall>f\<in>set (frames (rings_renderer a)). length (fr_objects f) = 6)"
  by (rule rings_page_spin) simp_all

text \<open>
  C20: every frame the variant draws shows the rings already turned for it: on the
  variant's page without a context loss, the frame drawn by the \<open>j\<close>-th call of
  \<open>animate\<close> (the call at mount being the 0-th) shows ring \<open>k\<close> as the torus the
  effect built for \<open>ringsConfig[k]\<close>, turned \<open>j + 1\<close> times, through the variant's camera:
  \<open>animate\<close> spins the rings before it calls \<open>renderer.render\<close>.
\<close>

theorem rings_frames_show_turns:
  assumes "webgl_available h" and "k < 4" and "Mount \<notin> set es" and "ContextLost \<notin> set es"
    and "j \<le> frame_count es"
  shows "let a = hd (r_apps (rings_run h (rings_mount_effect h rings_init_world) es));
             f = frames (rings_renderer a) ! j in
    fr_objects f ! k = (new_object (ring_kind (rings_config ! k)))\<lparr>rotation :=
      vec3 (of_nat (Suc j) * cfg_speed (rings_config ! k)) (of_nat (Suc j) * (cfg_speed (rings_config ! k) * 0.6)) 0\<rparr>
    \<and> fr_camera f = rings_camera a"
proof -
  obtain a0 where m: "mount_rings h = Inr a0" and wf: "rings_wf a0" and c: "\<not> context_lost (rings_renderer a0)"
    and run: "rings_run h (rings_mount_effect h rings_init_world) es =
      \<lparr>r_apps = [(rings_animate_frame ^^ Suc (frame_count es)) a0], r_queue = [0], r_errors = []\<rparr>"
    using rings_page_state [OF assms(1,3,4)] by blast
  have "frames (rings_renderer a0) = []" using mount_rings_facts [OF assms(1)] m by auto
  then have "frames (rings_renderer ((rings_animate_frame ^^ Suc (frame_count es)) a0)) ! j =
      snapshot (objs ((rings_animate_frame ^^ Suc j) a0)) (scene a0) (rings_camera a0)"
    using rings_frames_list [OF wf c, of "Suc (frame_count es)"] assms(5)
    by (simp del: upt_Suc add: nth_append)
  then show ?thesis
    using rings_frame_shows_ring [OF assms(1) m assms(2), of "Suc j"] by (simp add: run Let_def snapshot_def)
qed

theorem rings_frames_show_turns_witness:
  "let a = hd (r_apps (rings_run sample_host (rings_mount_effect sample_host rings_init_world)
             [AnimationFrame, Scroll (-500), AnimationFrame]));
       f = frames (rings_renderer a) ! 2 in
    fr_objects f ! 1 = (new_object (ring_kind (rings_config ! 1)))\<lparr>rotation :=
      vec3 (of_nat (Suc 2) * cfg_speed (rings_config ! 1)) (of_nat (Suc 2) * (cfg_speed (rings_config ! 1) * 0.6)) 0\<rparr>
    \<and> fr_camera f = rings_camera a"
  by (rule rings_frames_show_turns) simp_all

end
