(* ===== verification/Markup.thy ===== *)
theory Markup
  imports App
begin

text \<open>
  The page markup App returns (App.jsx lines 119--138) and the parts of its Tailwind
  styling that decide where the page can scroll and which element a pointer event
  reaches. The markup is a tree of elements with their class lists; the layout is
  computed in CSS pixels for a viewport of a given size, with the height of each text
  run a parameter (line breaking and fonts are not modelled). Each element gets a box
  in document coordinates, a stacking layer (the \<open>z-index\<close> of its nearest
  ancestor-or-self that has one) and whether it takes pointer events
  (\<open>pointer-events: none\<close> is inherited). A pointer event goes to the topmost box under
  the pointer that takes pointer events, in the order (layer, document order), which is
  CSS's paint order on this markup: no negative \<open>z-index\<close>, no float, and the only
  positioned element of layer 0 (the canvas) comes after the only other element of that
  layer (the root).
\<close>

datatype node = Element string "string list" "node list" | TextNode string

text \<open>The canvas the renderer draws into (\<open>ref={canvasRef}\<close>, lines 121--124).\<close>

definition canvas_markup :: node where
  "canvas_markup =
     Element ''canvas'' [''fixed'', ''top-0'', ''left-0'', ''w-screen'', ''h-screen'', ''z-0'',
                         ''pointer-events-none''] []"

definition content_markup :: node where
  "content_markup =
     Element ''div'' [''bg-black/70'', ''text-green-400'', ''p-10'', ''rounded-xl'', ''shadow-2xl'',
                      ''border'', ''border-green-500'', ''backdrop-blur'']
       [Element ''h1'' [''text-6xl'', ''font-bold''] [TextNode ''CONTENT IS VISIBLE NOW''],
        Element ''p'' [''text-2xl'', ''mt-6'']
          [TextNode ''If you can see this bright green box, the content is finally working!'']]"

definition main_markup :: node where
  "main_markup =
     Element ''main'' [''relative'', ''z-50'', ''w-full'', ''min-h-screen'', ''p-20'', ''text-white'']
       [content_markup, Element ''div'' [''h-[200vh]''] []]"

definition app_markup :: node where
  "app_markup =
     Element ''div'' [''w-screen'', ''min-h-screen'', ''overflow-x-hidden''] [canvas_markup, main_markup]"

record layout_env =
  vp_width :: jsnum
  vp_height :: jsnum
  text_height :: "string \<Rightarrow> jsnum"

text \<open>The Tailwind utilities of the page, in pixels (one spacing unit is 4px).\<close>

definition tw_padding :: "string list \<Rightarrow> jsnum" where
  "tw_padding cs = (if ''p-20'' \<in> set cs then 80 else if ''p-10'' \<in> set cs then 40 else 0)"

definition tw_border :: "string list \<Rightarrow> jsnum" where
  "tw_border cs = (if ''border'' \<in> set cs then 1 else 0)"

definition tw_margin_top :: "string list \<Rightarrow> jsnum" where
  "tw_margin_top cs = (if ''mt-6'' \<in> set cs then 24 else 0)"

definition tw_z :: "string list \<Rightarrow> nat option" where
  "tw_z cs = (if ''z-50'' \<in> set cs then Some 50 else if ''z-0'' \<in> set cs then Some 0 else None)"

fun classes :: "node \<Rightarrow> string list" where
  "classes (Element t cs ns) = cs"
| "classes (TextNode s) = []"

definition is_fixed :: "node \<Rightarrow> bool" where
  "is_fixed n \<longleftrightarrow> ''fixed'' \<in> set (classes n)"

definition inset :: "string list \<Rightarrow> jsnum" where
  "inset cs = tw_padding cs + tw_border cs"

text \<open>
  The border-box height of a node (Tailwind's preflight sets \<open>box-sizing:
  border-box\<close>): an explicit height, or the in-flow children (a fixed element is out
  of flow) with their top margins plus padding and border, at least the viewport
  height under \<open>min-h-screen\<close>. The page has a single vertical margin, so no margins
  collapse.
\<close>

fun node_height :: "layout_env \<Rightarrow> node \<Rightarrow> jsnum" where
  "node_height e (TextNode s) = text_height e s"
| "node_height e (Element t cs ns) =
     (let content = sum_list (map (\<lambda>n. if is_fixed n then 0
                                       else tw_margin_top (classes n) + node_height e n) ns);
          h = (if ''h-screen'' \<in> set cs then vp_height e
               else if ''h-[200vh]'' \<in> set cs then 2 * vp_height e
               else content + 2 * inset cs)
      in if ''min-h-screen'' \<in> set cs then max (vp_height e) h else h)"

record box =
  bx_path :: "nat list"
  bx_tag :: string
  bx_left :: jsnum
  bx_top :: jsnum
  bx_width :: jsnum
  bx_height :: jsnum
  bx_layer :: nat
  bx_pointer :: bool

text \<open>
  The boxes of a subtree, in document order, at scroll offset \<open>s\<close>: a fixed element
  at \<open>top-0 left-0\<close> sits at the top of the viewport; \<open>w-screen\<close> is the viewport
  width, any other block the width of its parent's content box.
\<close>

fun node_boxes :: "layout_env \<Rightarrow> jsnum \<Rightarrow> nat list \<Rightarrow> jsnum \<Rightarrow> jsnum \<Rightarrow> jsnum \<Rightarrow> nat \<Rightarrow> bool
    \<Rightarrow> node \<Rightarrow> box list"
and list_boxes :: "layout_env \<Rightarrow> jsnum \<Rightarrow> nat list \<Rightarrow> nat \<Rightarrow> jsnum \<Rightarrow> jsnum \<Rightarrow> jsnum \<Rightarrow> nat \<Rightarrow> bool
    \<Rightarrow> node list \<Rightarrow> box list" where
  "node_boxes e s p x w y z pe (TextNode str) = []"
| "node_boxes e s p x w y z pe (Element t cs ns) =
     (let fx = (''fixed'' \<in> set cs);
          x' = (if fx then 0 else x);
          y' = (if fx then s else y);
          w' = (if ''w-screen'' \<in> set cs then vp_width e else w);
          z' = (case tw_z cs of Some k \<Rightarrow> k | None \<Rightarrow> z);
          pe' = (pe \<and> ''pointer-events-none'' \<notin> set cs);
          b = \<lparr>bx_path = p, bx_tag = t, bx_left = x', bx_top = y', bx_width = w',
               bx_height = node_height e (Element t cs ns), bx_layer = z', bx_pointer = pe'\<rparr>
      in b # list_boxes e s p 0 (x' + inset cs) (w' - 2 * inset cs) (y' + inset cs) z' pe' ns)"
| "list_boxes e s p i x w y z pe [] = []"
| "list_boxes e s p i x w y z pe (n # ns) =
     (let yn = y + tw_margin_top (classes n)
      in node_boxes e s (p @ [i]) x w yn z pe n
         @ list_boxes e s p (Suc i) x w (if is_fixed n then y else yn + node_height e n) z pe ns)"

definition page_boxes :: "layout_env \<Rightarrow> jsnum \<Rightarrow> box list" where
  "page_boxes e s = node_boxes e s [] 0 (vp_width e) 0 0 True app_markup"

definition box_contains :: "box \<Rightarrow> jsnum \<Rightarrow> jsnum \<Rightarrow> bool" where
  "box_contains b x y \<longleftrightarrow>
     bx_left b \<le> x \<and> x < bx_left b + bx_width b \<and> bx_top b \<le> y \<and> y < bx_top b + bx_height b"

text \<open>The target of a pointer event at viewport point \<open>(x, y)\<close> with the page scrolled by \<open>s\<close>.\<close>

definition hit_target :: "layout_env \<Rightarrow> jsnum \<Rightarrow> jsnum \<Rightarrow> jsnum \<Rightarrow> box option" where
  "hit_target e s x y =
     (let hs = filter (\<lambda>b. bx_pointer b \<and> box_contains b x (y + s)) (sort_key bx_layer (page_boxes e s))
      in if hs = [] then None else Some (last hs))"

text \<open>
  The document is the root element (Tailwind's preflight gives the body no margin);
  the page scrolls from 0 to its height less the viewport's, and
  \<open>document.body.getBoundingClientRect().top\<close> is minus the scroll offset.
\<close>

definition doc_height :: "layout_env \<Rightarrow> jsnum" where
  "doc_height e = node_height e app_markup"

definition max_scroll :: "layout_env \<Rightarrow> jsnum" where
  "max_scroll e = max 0 (doc_height e - vp_height e)"

definition body_top :: "jsnum \<Rightarrow> jsnum" where
  "body_top s = - s"


subsection \<open>Layout of the page\<close>

lemmas markup_defs = app_markup_def main_markup_def content_markup_def canvas_markup_def

lemma page_boxes_shape:
  "map (\<lambda>b. (bx_path b, bx_tag b, bx_layer b, bx_pointer b)) (page_boxes e s) =
     [([], ''div'', 0, True), ([0], ''canvas'', 0, False), ([1], ''main'', 50, True),
      ([1, 0], ''div'', 50, True), ([1, 0, 0], ''h1'', 50, True), ([1, 0, 1], ''p'', 50, True),
      ([1, 1], ''div'', 50, True)]"
  by (simp add: page_boxes_def markup_defs tw_z_def Let_def del: node_height.simps)

lemma node_height_min_screen:
  "''min-h-screen'' \<in> set cs \<Longrightarrow> vp_height e \<le> node_height e (Element t cs ns)"
  by (simp add: Let_def)

lemma doc_height_main: "doc_height e = node_height e main_markup"
proof -
  have "vp_height e \<le> node_height e main_markup"
    unfolding main_markup_def by (rule node_height_min_screen) simp
  moreover have "classes main_markup = [''relative'', ''z-50'', ''w-full'', ''min-h-screen'', ''p-20'', ''text-white'']"
    by (simp add: main_markup_def)
  ultimately show ?thesis
    by (simp add: doc_height_def app_markup_def canvas_markup_def is_fixed_def tw_margin_top_def
        inset_def tw_padding_def tw_border_def
        node_height.simps(2) [of e "''div''" "[''w-screen'', ''min-h-screen'', ''overflow-x-hidden'']"]
        del: node_height.simps)
qed

lemma page_main_box:
  "bx_left (page_boxes e s ! 2) = 0 \<and> bx_top (page_boxes e s ! 2) = 0
   \<and> bx_width (page_boxes e s ! 2) = vp_width e \<and> bx_height (page_boxes e s ! 2) = doc_height e
   \<and> bx_pointer (page_boxes e s ! 2) \<and> length (page_boxes e s) = 7"
  by (simp add: page_boxes_def markup_defs Let_def tw_z_def doc_height_main is_fixed_def tw_margin_top_def inset_def tw_padding_def tw_border_def
      del: node_height.simps)

lemma sorted_layers_id: "sort_key bx_layer (page_boxes e s) = page_boxes e s"
proof -
  have "map bx_layer (page_boxes e s) = [0, 0, 50, 50, 50, 50, 50]"
    using arg_cong [OF page_boxes_shape, of "map (\<lambda>(p, t, z, pe). z)"] by (simp add: comp_def)
  then show ?thesis by (intro sort_key_id_if_sorted) simp
qed

lemma doc_height_eq:
  assumes "0 \<le> vp_height e" "0 \<le> text_height e ''CONTENT IS VISIBLE NOW''"
    "0 \<le> text_height e ''If you can see this bright green box, the content is finally working!''"
  shows "doc_height e = 266 + 2 * vp_height e + text_height e ''CONTENT IS VISIBLE NOW''
      + text_height e ''If you can see this bright green box, the content is finally working!''"
  using assms
  by (simp add: doc_height_def markup_defs is_fixed_def inset_def tw_padding_def tw_border_def
      tw_margin_top_def max_def)

lemma last_filter_from:
  assumes "i < length xs" and "P (xs ! i)"
  shows "filter P xs \<noteq> [] \<and> last (filter P xs) \<in> set (drop i xs)"
proof -
  have d: "drop i xs = xs ! i # drop (Suc i) xs" using assms(1) by (rule Cons_nth_drop_Suc [symmetric])
  then have ne: "filter P (drop i xs) \<noteq> []" using assms(2) by simp
  have "filter P xs = filter P (take i xs) @ filter P (drop i xs)"
    by (metis append_take_drop_id filter_append)
  then have "last (filter P xs) = last (filter P (drop i xs))" and "filter P xs \<noteq> []"
    using ne by simp_all
  moreover have "last (filter P (drop i xs)) \<in> set (drop i xs)"
    using last_in_set [OF ne] by auto
  ultimately show ?thesis by simp
qed

lemma max_scroll_nonneg: "0 \<le> max_scroll e"
  by (simp add: max_scroll_def)

lemma max_scroll_le: "0 \<le> s \<Longrightarrow> s \<le> max_scroll e \<Longrightarrow> s \<le> doc_height e - vp_height e"
proof -
  have "vp_height e \<le> doc_height e"
    unfolding doc_height_main main_markup_def by (rule node_height_min_screen) simp
  then show "0 \<le> s \<Longrightarrow> s \<le> max_scroll e \<Longrightarrow> s \<le> doc_height e - vp_height e"
    by (simp add: max_scroll_def max_def split: if_splits)
qed

subsection \<open>Properties of the page\<close>

text \<open>
  C21: at every point of the viewport and every scroll position of the page, a pointer
  event goes to \<open>main\<close> or an element inside it, never to the canvas: the canvas
  has \<open>pointer-events-none\<close> and lies under \<open>main\<close> (\<open>z-50\<close>), which covers the
  whole document. OrbitControls listens on the canvas (\<open>renderer.domElement\<close>), so
  on this page it never receives pointer input.
\<close>

theorem pointer_never_reaches_canvas:
  assumes "0 \<le> x" "x < vp_width e" "0 \<le> y" "y < vp_height e" "0 \<le> s" "s \<le> max_scroll e"
  shows "\<exists>b. hit_target e s x y = Some b \<and> take 1 (bx_path b) = [1] \<and> bx_tag b \<noteq> ''canvas''"
proof -
  let ?bs = "page_boxes e s" and ?P = "\<lambda>b. bx_pointer b \<and> box_contains b x (y + s)"
  have "?P (?bs ! 2)" and len: "2 < length ?bs"
    using page_main_box [of e s] max_scroll_le [OF assms(5,6)] assms(1-5)
    by (simp_all add: box_contains_def)
  from last_filter_from [OF len, of ?P, OF this(1)]
  have ne: "filter ?P ?bs \<noteq> []" and lst: "last (filter ?P ?bs) \<in> set (drop 2 ?bs)" by blast+
  have "map (\<lambda>b. (bx_path b, bx_tag b, bx_layer b, bx_pointer b)) (drop 2 ?bs) =
     [([1], ''main'', 50, True), ([1, 0], ''div'', 50, True), ([1, 0, 0], ''h1'', 50, True),
      ([1, 0, 1], ''p'', 50, True), ([1, 1], ''div'', 50, True)]"
    using arg_cong [OF page_boxes_shape, of "drop 2", of e s] by (simp add: drop_map)
  then have "\<forall>b\<in>set (drop 2 ?bs). take 1 (bx_path b) = [1] \<and> bx_tag b \<noteq> ''canvas''"
    by (fastforce dest: arg_cong [where f = set])
  with ne lst show ?thesis
    by (simp add: hit_target_def sorted_layers_id)
qed

theorem pointer_never_reaches_canvas_witness:
  "\<exists>b. hit_target \<lparr>vp_width = 800, vp_height = 600, text_height = \<lambda>_. 30\<rparr> 100 10 10 = Some b
     \<and> take 1 (bx_path b) = [1] \<and> bx_tag b \<noteq> ''canvas''"
  by (rule pointer_never_reaches_canvas)
     (simp_all add: max_scroll_def doc_height_def markup_defs is_fixed_def inset_def tw_padding_def
      tw_border_def tw_margin_top_def)

text \<open>
  C22: the page can scroll by the viewport height plus 266 pixels plus the two text
  runs (the spacer \<open>h-[200vh]\<close> below the content box inside \<open>main\<close>'s padding), so
  the scroll handler's camera depth ranges over 30 (top of the page) to 30 plus a
  hundredth of that distance (bottom of the page).
\<close>

theorem scroll_depth_range:
  assumes "0 \<le> vp_height e" and "0 \<le> text_height e ''CONTENT IS VISIBLE NOW''"
    and "0 \<le> text_height e ''If you can see this bright green box, the content is finally working!''"
    and "0 \<le> s" and "s \<le> max_scroll e"
  shows "max_scroll e = 266 + vp_height e + text_height e ''CONTENT IS VISIBLE NOW''
      + text_height e ''If you can see this bright green box, the content is finally working!''
    \<and> 30 \<le> scroll_camera_z (body_top s) \<and> scroll_camera_z (body_top s) \<le> 30 + max_scroll e / 100"
  using assms doc_height_eq [OF assms(1-3)]
  by (simp add: max_scroll_def scroll_camera_z_def body_top_def max_def)

theorem scroll_depth_range_witness:
  "max_scroll \<lparr>vp_width = 800, vp_height = 600, text_height = \<lambda>_. 30\<rparr> = 266 + 600 + 30 + 30
   \<and> 30 \<le> scroll_camera_z (body_top 926)
   \<and> scroll_camera_z (body_top 926) \<le> 30 + max_scroll \<lparr>vp_width = 800, vp_height = 600, text_height = \<lambda>_. 30\<rparr> / 100"
  using scroll_depth_range [of "\<lparr>vp_width = 800, vp_height = 600, text_height = \<lambda>_. 30\<rparr>" 926]
  by (simp add: max_scroll_def doc_height_def markup_defs is_fixed_def inset_def tw_padding_def
      tw_border_def tw_margin_top_def)

end
