(* ===== verification/Assets.thy ===== *)
theory Assets
  imports EventLoop
begin

text \<open>
  Asset loading (App.jsx lines 4--7 and 63--84). The effect calls
  \<open>new TextureLoader().load(img)\<close> for the four imported images (space, jeff, moon,
  normal map, in that order); \<open>load\<close> returns a \<open>Texture\<close> at once and the image
  arrives later, or fails, asynchronously. The code passes no \<open>onError\<close> callback, so
  a failed load is only logged: nothing reaches the program or the host. A render can
  sample a texture only once its image has arrived; until then, and for ever after a
  failure, the texture unit is left unbound.

  The page is the browser world of EventLoop together with the load state of each image
  and the views the display showed: a view is a frame drawn by the renderer with, for
  every object and for the background, the texture slot it sampled at that render. Page
  events are the browser's events and the image loader's completions.
\<close>

datatype load_state = NotRequested | Loading | Loaded | LoadFailed

text \<open>The imported images, in the order the effect loads them (lines 63, 67, 76, 77).\<close>

definition page_images :: "string list" where
  "page_images = [''space.jpg'', ''jeff.png'', ''moon.jpg'', ''normal.jpg'']"

datatype asset_event = ImageLoaded string | ImageFailed string

datatype page_event = Browser event | Asset asset_event

datatype slot = NoMap | Sampled texture | Unbound texture

record view =
  vw_frame :: frame
  vw_maps :: "(slot \<times> slot) list"
  vw_background :: slot

record page =
  pg_world :: world
  pg_images :: "string \<Rightarrow> load_state"
  pg_seen :: "view list"

definition page_init :: page where
  "page_init = \<lparr>pg_world = init_world, pg_images = (\<lambda>_. NotRequested), pg_seen = []\<rparr>"

text \<open>What a texture slot of a material samples, given the load state of the images.\<close>

fun tex_slot :: "(string \<Rightarrow> load_state) \<Rightarrow> texture option \<Rightarrow> slot" where
  "tex_slot imgs None = NoMap"
| "tex_slot imgs (Some (Texture n)) = (if imgs n = Loaded then Sampled (Texture n) else Unbound (Texture n))"

definition obj_slots :: "(string \<Rightarrow> load_state) \<Rightarrow> obj3d \<Rightarrow> slot \<times> slot" where
  "obj_slots imgs ob =
     (case kind ob of
        Mesh g m \<Rightarrow> (tex_slot imgs (tex_map m), tex_slot imgs (normal_map m))
      | _ \<Rightarrow> (NoMap, NoMap))"

definition frame_view :: "(string \<Rightarrow> load_state) \<Rightarrow> frame \<Rightarrow> view" where
  "frame_view imgs f =
     \<lparr>vw_frame = f, vw_maps = map (obj_slots imgs) (fr_objects f),
      vw_background = tex_slot imgs (fr_background f)\<rparr>"

text \<open>
  The frames an event drew, in the order the runs drew them: the frames each existing
  run appended, then those of a run the event created.
\<close>

definition new_frames :: "world \<Rightarrow> world \<Rightarrow> frame list" where
  "new_frames w w' =
     concat (map (\<lambda>(a, a'). drop (length (frames (renderer a))) (frames (renderer a')))
               (zip (apps w) (apps w')))
     @ concat (map (\<lambda>a. frames (renderer a)) (drop (length (apps w)) (apps w')))"

text \<open>
  The effect starts the four loads only when it gets past the renderer's constructor
  (line 21), that is, when WebGL is available; a completion changes a load that is in
  progress and nothing else.
\<close>

definition request_images :: "host \<Rightarrow> (string \<Rightarrow> load_state) \<Rightarrow> string \<Rightarrow> load_state" where
  "request_images h imgs n =
     (if webgl_available h \<and> n \<in> set page_images \<and> imgs n = NotRequested then Loading else imgs n)"

definition complete_load :: "load_state \<Rightarrow> string \<Rightarrow> (string \<Rightarrow> load_state) \<Rightarrow> string \<Rightarrow> load_state" where
  "complete_load r n imgs = (if imgs n = Loading then imgs(n := r) else imgs)"

fun page_step :: "host \<Rightarrow> controls \<Rightarrow> page \<Rightarrow> page_event \<Rightarrow> page" where
  "page_step h u p (Browser e) =
     (let w' = step h u (pg_world p) e;
          imgs = (if e = Mount then request_images h (pg_images p) else pg_images p)
      in p\<lparr>pg_world := w', pg_images := imgs,
           pg_seen := pg_seen p @ map (frame_view imgs) (new_frames (pg_world p) w')\<rparr>)"
| "page_step h u p (Asset (ImageLoaded n)) = p\<lparr>pg_images := complete_load Loaded n (pg_images p)\<rparr>"
| "page_step h u p (Asset (ImageFailed n)) = p\<lparr>pg_images := complete_load LoadFailed n (pg_images p)\<rparr>"

definition page_run :: "host \<Rightarrow> controls \<Rightarrow> page \<Rightarrow> page_event list \<Rightarrow> page" where
  "page_run h u p es = fold (\<lambda>e p. page_step h u p e) es p"

fun browser_events :: "page_event list \<Rightarrow> event list" where
  "browser_events [] = []"
| "browser_events (Browser e # es) = e # browser_events es"
| "browser_events (Asset a # es) = browser_events es"

inductive asset_page_reachable :: "host \<Rightarrow> controls \<Rightarrow> page \<Rightarrow> bool" for h u where
  mounted: "asset_page_reachable h u (page_step h u page_init (Browser Mount))"
| event: "asset_page_reachable h u p \<Longrightarrow> e \<noteq> Browser Mount \<Longrightarrow>
    asset_page_reachable h u (page_step h u p e)"

text \<open>The texture slots of a view that sample an image.\<close>

definition sampled :: "view \<Rightarrow> string set" where
  "sampled v = {n. Sampled (Texture n) = vw_background v
                  \<or> (\<exists>s\<in>set (vw_maps v). fst s = Sampled (Texture n) \<or> snd s = Sampled (Texture n))}"

definition views_loaded :: "page \<Rightarrow> bool" where
  "views_loaded p \<longleftrightarrow> (\<forall>v\<in>set (pg_seen p). \<forall>n\<in>sampled v. pg_images p n = Loaded)"

subsection \<open>The asset lifecycle\<close>

lemma page_step_world [simp]:
  "pg_world (page_step h u p (Browser e)) = step h u (pg_world p) e"
  "pg_world (page_step h u p (Asset a)) = pg_world p"
   apply (simp add: Let_def)
  by (cases a) simp_all

lemma page_run_world:
  "pg_world (page_run h u p es) = run h u (pg_world p) (browser_events es)"
proof (induction es arbitrary: p)
  case (Cons e es)
  then show ?case by (cases e) (simp_all add: page_run_def run_def Let_def)
qed (simp add: page_run_def run_def)

lemma set_browser_events: "e \<in> set (browser_events es) \<longleftrightarrow> Browser e \<in> set es"
  by (induction es rule: browser_events.induct) auto

lemma tex_slot_sampled: "tex_slot imgs t = Sampled (Texture n) \<Longrightarrow> imgs n = Loaded"
  by (cases "(imgs, t)" rule: tex_slot.cases) (auto split: if_splits)

lemma obj_slots_sampled:
  "fst (obj_slots imgs ob) = Sampled (Texture n) \<or> snd (obj_slots imgs ob) = Sampled (Texture n)
   \<Longrightarrow> imgs n = Loaded"
  by (cases "kind ob") (auto simp: obj_slots_def dest: tex_slot_sampled)

lemma sampled_frame_view: "n \<in> sampled (frame_view imgs f) \<Longrightarrow> imgs n = Loaded"
  by (auto simp: sampled_def frame_view_def intro: obj_slots_sampled dest: tex_slot_sampled [OF sym])

lemma loaded_stays:
  "imgs n = Loaded \<Longrightarrow> request_images h imgs n = Loaded"
  "imgs n = Loaded \<Longrightarrow> complete_load r m imgs n = Loaded"
  by (auto simp: request_images_def complete_load_def)

lemma views_loaded_step: "views_loaded p \<Longrightarrow> views_loaded (page_step h u p e)"
proof (cases e)
  case (Browser b)
  assume "views_loaded p"
  then show ?thesis using Browser
    by (auto simp: views_loaded_def Let_def loaded_stays sampled_frame_view)
next
  case (Asset a)
  assume "views_loaded p"
  then show ?thesis using Asset
    by (cases a) (auto simp: views_loaded_def loaded_stays)
qed

lemma asset_reachable_world: "asset_page_reachable h u p \<Longrightarrow> page_reachable h u (pg_world p)"
proof (induction rule: asset_page_reachable.induct)
  case mounted
  then show ?case using page_reachable.mounted by (simp add: page_init_def Let_def)
next
  case (event p e)
  then show ?case by (cases e) (auto simp: Let_def intro: page_reachable.event)
qed

lemma refresh_new_frames:
  assumes "page_inv w" and "\<not> context_lost (renderer (hd (apps w)))"
  shows "new_frames w (step h u w AnimationFrame) =
    [snapshot (rotate_obj torus_spin (torus (hd (apps w))) (objs (hd (apps w))))
       (scene (hd (apps w))) (u (camera (hd (apps w))))]"
proof -
  obtain a where a: "apps w = [a]" using assms(1) by (auto simp: page_inv_def length_Suc_conv)
  have st: "step h u w AnimationFrame = w\<lparr>apps := [animate_frame u a]\<rparr>"
    using step_page [OF assms(1), of AnimationFrame h u] a by simp
  show ?thesis unfolding st using assms(2) a by (simp add: new_frames_def frames_render)
qed

lemma kind_rotate_obj [simp]: "map_option kind (rotate_obj d i m j) = map_option kind (m j)"
  by (simp add: rotate_obj_def update_obj_def option.map_comp comp_def)

lemma obj_slots_kind:
  "kind ob = Mesh g mat \<Longrightarrow> obj_slots imgs ob = (tex_slot imgs (tex_map mat), tex_slot imgs (normal_map mat))"
  by (simp add: obj_slots_def)

lemma refresh_view:
  assumes "asset_page_reachable h u p" and "webgl_available h"
    and "\<not> context_lost (renderer (hd (apps (pg_world p))))"
  shows "\<exists>v. pg_seen (page_step h u p (Browser AnimationFrame)) = pg_seen p @ [v]
    \<and> length (vw_maps v) = 205
    \<and> vw_background v = tex_slot (pg_images p) (Some (Texture ''space.jpg''))
    \<and> vw_maps v ! 203 = (tex_slot (pg_images p) (Some (Texture ''jeff.png'')), NoMap)
    \<and> vw_maps v ! 204 = (tex_slot (pg_images p) (Some (Texture ''moon.jpg'')),
                          tex_slot (pg_images p) (Some (Texture ''normal.jpg'')))"
proof -
  let ?w = "pg_world p" let ?a = "hd (apps ?w)" let ?imgs = "pg_images p"
  let ?m = "rotate_obj torus_spin (torus ?a) (objs ?a)"
  have r: "page_reachable h u ?w" using assms(1) by (rule asset_reachable_world)
  have inv: "page_inv ?w" using r assms(2) by (rule reachable_page_inv)
  obtain a0 where m0: "mount_scene h 0 = Inr a0"
    and ch: "children (scene a0) = [0, 1, 2] @ [3..<203] @ [203, 204]"
    and j0: "objs a0 203 = Some ((new_object jeff_kind)\<lparr>position := vec3 2 0 (-5)\<rparr>)"
    and o0: "objs a0 204 = Some ((new_object moon_kind)\<lparr>position := vec3 (-10) 0 30\<rparr>)"
    and b0: "background (scene a0) = Some (Texture ''space.jpg'')"
    using mount_scene_facts [OF assms(2), of 0] by blast
  have sh: "obj_shape ?a = obj_shape a0" and sc: "scene ?a = scene a0"
    using reachable_store_shape [OF r assms(2) m0] by simp_all
  have kinds: "map_option kind (?m j) = map_option kind (objs a0 j)" for j
  proof -
    have "map_option fst (obj_shape ?a j) = map_option fst (obj_shape a0 j)" using sh by simp
    then show ?thesis by (simp add: obj_shape_def option.map_comp comp_def)
  qed

  have wf: "scene_wf ?m (scene a0)"
    using inv sc by (simp add: page_inv_def app_wf_def stage_wf_def rotate_obj_def)
  let ?vis = "visible ?m (scene a0)"
  have len: "length ?vis = 205" using wf ch by simp
  have s: "?m 204 = Some (?vis ! 204)" "?m 203 = Some (?vis ! 203)"
    using visible_nth [OF wf] ch by (simp_all add: nth_append)
  have k204: "kind (?vis ! 204) = moon_kind"
    using kinds [of 204] o0 unfolding s(1) by (simp add: new_object_def)
  have k203: "kind (?vis ! 203) = jeff_kind"
    using kinds [of 203] j0 unfolding s(2) by (simp add: new_object_def)
  have seen: "pg_seen (page_step h u p (Browser AnimationFrame)) =
      pg_seen p @ [frame_view ?imgs (snapshot ?m (scene ?a) (u (camera ?a)))]"
    using refresh_new_frames [OF inv assms(3), of h u] by (simp add: Let_def)
  show ?thesis
    using seen len sc b0 obj_slots_kind [OF k204 [unfolded moon_kind_def]] obj_slots_kind [OF k203 [unfolded jeff_kind_def]]
    by (simp add: frame_view_def snapshot_def moon_kind_def jeff_kind_def mesh_standard_material_def)
qed

end
