(* ===== verification/Spec2Isabelle.thy ===== *)
theory Spec2Isabelle
  imports Refinement RingsLoop Markup Assets
begin

text \<open>
  \<^bold>\<open>A verified model of src/src/App.jsx.\<close>

  The program is one React component. Its effect (lines 12--117) builds a three.js
  scene (a torus, two lights, 200 random stars, a textured box and a textured moon), a
  perspective camera, a WebGL renderer and orbit controls, installs \<open>moveCamera\<close> as
  \<open>document.body.onscroll\<close> and starts the \<open>animate\<close> loop on
  \<open>requestAnimationFrame\<close>. Two event sources then drive one shared scene: display
  refreshes run \<open>animate\<close> (turn the torus, update the controls, render), scroll
  events run \<open>moveCamera\<close> (turn the moon and the box, set the camera depth from the
  scroll offset). Both run on the page's single thread, interleaved.

  \<^bold>\<open>Theories and what they model.\<close>
  \<^item> \<open>Prelude\<close>: JavaScript numbers as exact rationals (\<open>jsnum\<close>), three.js
    vectors and Euler angles as the record \<open>vec3\<close>, object references as \<open>oid\<close>;
    vector and list lemmas shared by the components.
  \<^item> \<open>Scene\<close> (Scene Graph Store): geometries, materials, the objects App creates
    (\<open>obj_kind\<close>, \<open>obj3d\<close>) in an explicit store \<open>oid \<Rightarrow> obj3d option\<close>, so
    that the handlers mutate through references exactly as the closures do; the scene as
    its ordered children; \<open>scene_add\<close> as three.js \<open>Object3D.add\<close> (the program
    never removes an object); \<open>visible\<close>, what a render draws.
  \<^item> \<open>Camera\<close> (Camera Rig): \<open>PerspectiveCamera\<close> and \<open>position.setZ\<close>; the
    orbit controls as an update hook \<open>controls\<close> with the contract
    \<open>controls_keep_depth\<close> and two instances, the idle update and a horizontal drag.
  \<^item> \<open>Renderer\<close> (Render Sink): configuration and the list of frames drawn; a
    frame is the snapshot \<open>render(scene, camera)\<close> reads; nothing is drawn while the
    context is lost, as three.js does.
  \<^item> \<open>StarField\<close>: the construction stage (store, next reference, scene,
    \<open>Math.random\<close> draw count), \<open>randFloatSpread\<close>, \<open>addStar\<close> (lines 50--59) and
    the 200-star loop (line 60); \<open>Math.random\<close> is the parameter
    \<open>rnd :: nat \<Rightarrow> jsnum\<close>, its sequence of results.
  \<^item> \<open>App\<close>: the closure state \<open>app\<close> (stage plus camera, renderer and the
    references \<open>torus\<close>, \<open>moon\<close>, \<open>jeffBox\<close>); \<open>mount_scene\<close>, the effect
    body up to line 86, failing with \<open>ConstructionError\<close> when no WebGL context can be
    created; \<open>move_camera\<close> (lines 89--100); \<open>animate_frame\<close>, the body of
    \<open>animate\<close> after its reschedule (lines 108--113).
  \<^item> \<open>EventLoop\<close>: the browser: the world of effect runs, the
    \<open>requestAnimationFrame\<close> queue, the scroll slot, the WebGL context events;
    \<open>animate\<close> (reschedule, then frame), \<open>mount_effect\<close> (the whole effect,
    lines 12--117), \<open>step\<close> on an \<open>event\<close> and \<open>run\<close> over an event list;
    \<open>page_reachable\<close>, the states of a page view, as an inductive set.
    A window resize is an event with no listener.
  \<^item> \<open>Refinement\<close>: the specification's contract for the loop as an abstract
    machine (\<open>spec_state\<close>, \<open>spec_step\<close> on Tick, ScrollTo and Stop) and the
    relation \<open>refines\<close> between pages and abstract states.
  \<^item> \<open>Markup\<close> (Page markup, lines 119--138): the JSX tree with its class lists
    (\<open>canvas_markup\<close>, \<open>content_markup\<close>, \<open>main_markup\<close>,
    \<open>app_markup\<close>); the block layout of the Tailwind utilities the page uses
    (\<open>node_height\<close>, \<open>node_boxes\<close>), with text heights a parameter; the scroll
    range (\<open>max_scroll\<close>), \<open>body.getBoundingClientRect().top\<close> (\<open>body_top\<close>,
    line 90) and pointer hit testing by paint order and \<open>pointer-events\<close>
    (\<open>hit_target\<close>).
  \<^item> \<open>Assets\<close> (Asset loading, lines 4--7 and 63--84): the four image loads the
    effect starts (\<open>page_images\<close>, \<open>request_images\<close>) complete or fail
    asynchronously (\<open>asset_event\<close>, \<open>complete_load\<close>); the page
    (\<open>page\<close>, \<open>page_step\<close>) is the browser world, the image load states and the
    views the display showed, a view recording for each texture unit whether it sampled
    an arrived image or stayed unbound (\<open>tex_slot\<close>, \<open>frame_view\<close>).
  \<^item> \<open>RingsVariant\<close>: the multiple-rings version of App kept commented out at the end
    of the file (lines 143--218): \<open>ringsConfig\<close>, the forEach that builds one torus
    per entry with its \<open>userData.speed\<close> (\<open>add_ring\<close>, \<open>mount_rings\<close>) and
    its frame body (\<open>rings_animate_frame\<close>).
  \<^item> \<open>RingsLoop\<close>: the variant in the browser: its self-rescheduling \<open>animate\<close>
    (\<open>rings_animate\<close>, lines 199--208), the effect ending in \<open>animate()\<close>
    (\<open>rings_mount_effect\<close>, lines 151--211), and \<open>rings_step\<close> on the events of
    EventLoop, of which the variant, with no scroll handler and no controls, sees the
    refreshes and the context events.

  \<^bold>\<open>What is proved.\<close>
  \<^item> Event loop (EventLoop): every reachable state of a page view has one effect
    run, one pending \<open>animate\<close> callback and one scroll binding (C1); the loop never
    stops (C2); any interleaving of refreshes and scroll events gives the torus one turn
    per refresh plus one at mount, the moon and box one turn per scroll event, the camera
    the depth of the last scroll, and one frame per refresh plus one (C3); frames are
    only ever appended and each shows the whole 205-object scene (C5); with idle
    controls only the camera depth ever changes (C6). Without a cleanup a second effect
    run leaves two loops running (C13); a lost context is swallowed and rendering
    resumes after restoration (C14); each reference keeps the kind and position of the
    object it was created with (C24); without WebGL the construction error reaches the
    host and nothing runs afterwards (C25).
  \<^item> Refinement (Refinement): the page refines the specification's loop machine,
    the effect counting as construction plus one tick (C4).
  \<^item> Handlers (App): one frame turns the torus, updates the camera and renders the
    fully updated state (C7), \<open>T\<close> frames give \<open>T\<close> turns and \<open>T\<close> frames
    (C8); the scroll depth is \<open>30 + t * -0.01\<close> whatever came before (C9), every
    scroll event counts (C10) and turns exactly the moon and the box (C11), the depth
    grows as the page scrolls down (C12); the effect builds the 205-child scene it
    describes (C15). The lemma \<open>orbit_drag_overwrites_depth\<close> records that a
    dragging OrbitControls would overwrite the scroll's depth, which C21 shows cannot
    happen on this page.
  \<^item> Star field (StarField): \<open>n\<close> calls of \<open>addStar\<close> add \<open>n\<close> fresh children
    and take \<open>3 n\<close> draws (C16); every coordinate is the spread of its own draw and
    lies in \<open>(-50, 50]\<close> (C17); the lemma \<open>star_field_reaches_50\<close> records that
    the bound 50 is attained.
  \<^item> Rings variant (RingsVariant, RingsLoop): the effect builds the four configured
    rings and two lights (C18); after the effect and any events, one callback stays
    pending and ring \<open>k\<close> has turned by its speed about x and \<open>0.6\<close> of that about y
    once per refresh plus once at mount, one frame drawn per turn (C19); each of those
    frames shows the rings after that call's turn, since \<open>animate\<close> spins before it
    renders (C20).
  \<^item> Page (Markup): no pointer event reaches the canvas, hence the orbit controls
    (C21); the page scrolls by the viewport height plus 266 pixels plus its two text runs,
    which bounds the scroll handler's depth (C22).
  \<^item> Across components (this theory): with scroll offsets the page can reach, the
    camera depth stays within 30 and 30 plus a hundredth of the page's scroll range (C23).
  \<^item> Asset loading (Assets) and the scene store (Scene) carry library lemmas only:
    the page's world is the browser's whatever the image events
    (\<open>page_run_world\<close>), a view samples only arrived images
    (\<open>views_loaded_step\<close>), each refresh draws one view of all objects
    (\<open>refresh_view\<close>), and mutating an object keeps the scene invariant
    (\<open>scene_wf_update_obj\<close>). These follow from the library's own definitions of
    texture sampling and of the store rather than from App.jsx, so they are not stated as properties of the program.

  \<^bold>\<open>Modelling choices.\<close> Numbers are exact rationals, so rotation sums are exact
  where the browser accumulates binary64 rounding; the specification states the same
  properties up to a tolerance. No loop needs fuel: \<open>addStar\<close> runs a fixed 200
  times (primitive recursion), and the animation loop is not a HOL loop at all but one
  callback per refresh event, so its non-termination is a property of the event
  sequence (C2) rather than of a function. The browser runs \<open>requestAnimationFrame\<close>
  callbacks pending at the start of a refresh and defers the ones they request, which is
  \<open>run_animation_frame\<close>. The page's layout is computed for a
  viewport and text heights given as parameters; CSS paint order is taken as
  (stacking layer, document order), which agrees with CSS on this markup (no negative
  \<open>z-index\<close>, no floats, one positioned element in layer 0 after the root).

  \<^bold>\<open>Not modelled.\<close> Rasterisation and WebGL itself; the OrbitControls' pointer handling
  and spherical arithmetic (C21 shows that no pointer input reaches the controls);
  image decoding and the GPU upload (a texture unit either samples the arrived image or
  is unbound); colours, fonts and line breaking of the markup; the rings variant's
  JSX (a bare canvas, lines 213--215), which has no behaviour since nothing in the
  variant listens for pointer input. The window aspect
  \<open>innerWidth / innerHeight\<close> is a rational quotient, which differs from JavaScript
  only for a zero height, where the browser would give Infinity or NaN.
\<close>

subsection \<open>Properties across components\<close>

text \<open>
  C23: the page's layout bounds the camera. After the effect and any interleaving of
  refreshes, scroll and context events in which every scroll offset is one the page can
  reach (a bounding-rect top between minus the page's scroll range and 0), the camera
  depth lies between 30 and 30 plus a hundredth of the scroll range, with orbit controls
  that keep the depth, as the idle ones do and as they are on this page, where no
  pointer event reaches them.
\<close>

theorem page_depth_within_scroll_range:
  assumes "webgl_available h" and "controls_keep_depth u" and "Mount \<notin> set es"
    and "\<forall>t\<in>set (scroll_offsets es). \<exists>s. 0 \<le> s \<and> s \<le> max_scroll e \<and> t = body_top s"
  shows "let a = hd (apps (run h u (mount_effect h u init_world) es)) in
    30 \<le> vz (cam_pos (camera a)) \<and> vz (cam_pos (camera a)) \<le> 30 + max_scroll e / 100"
proof -
  obtain a0 where m: "mount_effect h u init_world =
      \<lparr>apps = [a0], raf_queue = [0], onscroll = Some 0, rng = 600, errors = []\<rparr>"
    and z: "vz (cam_pos (camera a0)) = 30"
    using mount_first_frame [OF assms(1,2)] by blast
  have inv0: "page_inv (mount_effect h u init_world)" using assms(1) by (rule mount_page_inv)
  have run: "hd (apps (run h u (mount_effect h u init_world) es)) = fold (app_event u) es a0"
    using run_page [OF inv0 assms(3)] by (simp add: m)
  have in_range: "30 \<le> scroll_camera_z t \<and> scroll_camera_z t \<le> 30 + max_scroll e / 100"
    if "t \<in> set (scroll_offsets es)" for t
    using assms(4) that by (auto simp: scroll_camera_z_def body_top_def)
  show ?thesis
    using run fold_app_event_depth [OF assms(2), of es a0] z in_range [of "last (scroll_offsets es)"]
      max_scroll_nonneg [of e]
    by (simp add: Let_def)
qed

theorem page_depth_within_scroll_range_witness:
  "let a = hd (apps (run sample_host controls_idle (mount_effect sample_host controls_idle init_world)
             [AnimationFrame, Scroll (body_top 500), AnimationFrame]))
   in 30 \<le> vz (cam_pos (camera a))
      \<and> vz (cam_pos (camera a)) \<le> 30 + max_scroll \<lparr>vp_width = 800, vp_height = 600, text_height = \<lambda>_. 30\<rparr> / 100"
proof -
  have "max_scroll \<lparr>vp_width = 800, vp_height = 600, text_height = \<lambda>_. 30\<rparr> = 926"
    by (simp add: max_scroll_def doc_height_def markup_defs is_fixed_def inset_def tw_padding_def
        tw_border_def tw_margin_top_def)
  then have "\<forall>t\<in>set (scroll_offsets [AnimationFrame, Scroll (body_top 500), AnimationFrame]).
      \<exists>s. 0 \<le> s \<and> s \<le> max_scroll \<lparr>vp_width = 800, vp_height = 600, text_height = \<lambda>_. 30\<rparr> \<and> t = body_top s"
    by (auto intro!: exI [of _ 500])
  then show ?thesis
    using page_depth_within_scroll_range [of sample_host controls_idle
        "[AnimationFrame, Scroll (body_top 500), AnimationFrame]"] controls_idle_keeps_depth
    by simp
qed

end
